theory Spec2Isabelle
  imports Complex_Main
begin

section \<open>BlackRoad Power Manager: data model\<close>

text \<open>
  A shallow embedding of \<^verbatim>\<open>power_manager.py\<close>. Python floats are idealised as
  real numbers: comparisons, \<^verbatim>\<open>min\<close> and \<^verbatim>\<open>max\<close> on finite floats agree with the
  reals; products, quotients and \<^verbatim>\<open>round\<close> are exact here and binary rounding error is
  left out. A timestamp (the ISO-8601 UTC string of \<^verbatim>\<open>datetime.now\<close>) is the number of
  microseconds since the epoch; the text order of the fixed-format strings is the order
  of these numbers. The clock reading and the \<^verbatim>\<open>uuid4\<close> value of a call are inputs
  of the call (an \<open>env\<close>). Integers are Python's unbounded ones; where a library type
  bounds them (\<^verbatim>\<open>timedelta\<close>, \<^verbatim>\<open>datetime\<close>, SQLite's 64-bit INTEGER) the call raises
  \<^verbatim>\<open>OverflowError\<close>.
\<close>

type_synonym timestamp = int

datatype MeterType = MAIN | BATTERY | SOLAR | UPS

datatype PowerEventType = CHARGE_START | DISCHARGE | LOW_BATTERY | SHUTDOWN | RESTORE

datatype PowerState = NORMAL | LOW | CRITICAL | CHARGING | UNKNOWN

definition MeterType_of :: "string \<Rightarrow> MeterType option" where
  "MeterType_of s =
     (if s = ''main'' then Some MAIN
      else if s = ''battery'' then Some BATTERY
      else if s = ''solar'' then Some SOLAR
      else if s = ''ups'' then Some UPS
      else None)"

definition PowerEventType_of :: "string \<Rightarrow> PowerEventType option" where
  "PowerEventType_of s =
     (if s = ''charge_start'' then Some CHARGE_START
      else if s = ''discharge'' then Some DISCHARGE
      else if s = ''low_battery'' then Some LOW_BATTERY
      else if s = ''shutdown'' then Some SHUTDOWN
      else if s = ''restore'' then Some RESTORE
      else None)"

definition LOW_BATTERY_THRESHOLD :: real where
  "LOW_BATTERY_THRESHOLD = 20"

definition CRITICAL_BATTERY_THRESHOLD :: real where
  "CRITICAL_BATTERY_THRESHOLD = 5"

record PowerMeter =
  m_id :: string
  m_device_id :: string
  m_type :: MeterType
  m_voltage :: real
  m_current_draw :: real
  m_capacity_wh :: real
  m_charge_pct :: real
  m_name :: "string option"

record PowerReading =
  r_id :: string
  r_meter_id :: string
  r_voltage :: real
  r_current_draw :: real
  r_wattage :: real
  r_charge_pct :: real
  r_timestamp :: timestamp

record PowerEvent =
  e_id :: string
  e_device_id :: string
  e_type :: PowerEventType
  e_value :: real
  e_timestamp :: timestamp
  e_note :: "string option"

record DeviceRecord =
  d_id :: string
  d_name :: string
  d_shutdown_threshold :: real
  d_target_wh :: "real option"

text \<open>
  Python's \<^verbatim>\<open>round(x, ndigits)\<close>: the nearest multiple of \<open>10\<^sup>-\<^sup>n\<close>, a tie going to the
  even one.
\<close>

definition py_round :: "real \<Rightarrow> nat \<Rightarrow> real" where
  "py_round x ndigits =
     (let scaled = x * 10 ^ ndigits;
          lo = \<lfloor>scaled\<rfloor>;
          frac = scaled - of_int lo;
          q = (if frac < 1 / 2 then lo
               else if 1 / 2 < frac then lo + 1
               else if even lo then lo else lo + 1)
      in of_int q / 10 ^ ndigits)"

definition wattage :: "PowerMeter \<Rightarrow> real" where
  "wattage m = py_round (m_voltage m * m_current_draw m) 4"

definition state :: "PowerMeter \<Rightarrow> PowerState" where
  "state m =
     (if m_type m = SOLAR then CHARGING
      else if m_charge_pct m \<le> CRITICAL_BATTERY_THRESHOLD then CRITICAL
      else if m_charge_pct m \<le> LOW_BATTERY_THRESHOLD then LOW
      else if m_charge_pct m \<ge> 95 then CHARGING
      else NORMAL)"

section \<open>The store\<close>

text \<open>
  The four tables of \<^verbatim>\<open>init_db\<close>, each a list of rows in insertion (rowid) order.
  A statement that breaks a \<^verbatim>\<open>PRIMARY KEY\<close> or \<^verbatim>\<open>FOREIGN KEY\<close> constraint raises.
\<close>

datatype error =
  DeviceNotFound string
  | MeterNotFound string
  | InvalidEnum string
  | IntegrityError
  | OverflowError
  | OperationalError

record db =
  devices :: "DeviceRecord list"
  power_meters :: "PowerMeter list"
  power_readings :: "PowerReading list"
  power_events :: "PowerEvent list"

record env =
  env_now :: timestamp
  env_uuid :: string

definition init_db :: db where
  "init_db = \<lparr>devices = [], power_meters = [], power_readings = [], power_events = []\<rparr>"

text \<open>
  \<^verbatim>\<open>with db_conn(...) as conn\<close>: the body's writes are committed when it returns and
  rolled back when it raises.
\<close>

definition db_conn :: "(db \<Rightarrow> error + 'a \<times> db) \<Rightarrow> db \<Rightarrow> (error + 'a) \<times> db" where
  "db_conn body s =
     (case body s of
        Inl err \<Rightarrow> (Inl err, s)
      | Inr (a, s') \<Rightarrow> (Inr a, s'))"

text \<open>\<^verbatim>\<open>INSERT OR REPLACE INTO devices\<close>: a row with the same key is replaced.\<close>

definition insert_or_replace_device :: "DeviceRecord \<Rightarrow> db \<Rightarrow> error + unit \<times> db" where
  "insert_or_replace_device d c =
     Inr ((), c\<lparr>devices := filter (\<lambda>x. d_id x \<noteq> d_id d) (devices c) @ [d]\<rparr>)"

definition insert_meter :: "PowerMeter \<Rightarrow> db \<Rightarrow> error + unit \<times> db" where
  "insert_meter m c =
     (if m_id m \<in> set (map m_id (power_meters c)) then Inl IntegrityError
      else if m_device_id m \<notin> set (map d_id (devices c)) then Inl IntegrityError
      else Inr ((), c\<lparr>power_meters := power_meters c @ [m]\<rparr>))"

definition insert_reading :: "PowerReading \<Rightarrow> db \<Rightarrow> error + unit \<times> db" where
  "insert_reading r c =
     (if r_id r \<in> set (map r_id (power_readings c)) then Inl IntegrityError
      else if r_meter_id r \<notin> set (map m_id (power_meters c)) then Inl IntegrityError
      else Inr ((), c\<lparr>power_readings := power_readings c @ [r]\<rparr>))"

text \<open>\<^verbatim>\<open>UPDATE power_meters SET voltage=?, current_draw=?, charge_pct=? WHERE id=?\<close>\<close>

definition update_meter :: "string \<Rightarrow> real \<Rightarrow> real \<Rightarrow> real \<Rightarrow> db \<Rightarrow> error + unit \<times> db" where
  "update_meter meter_id voltage current pct c =
     Inr ((), c\<lparr>power_meters :=
       map (\<lambda>m. if m_id m = meter_id
                 then m\<lparr>m_voltage := voltage, m_current_draw := current, m_charge_pct := pct\<rparr>
                 else m)
           (power_meters c)\<rparr>)"

definition insert_event :: "PowerEvent \<Rightarrow> db \<Rightarrow> error + unit \<times> db" where
  "insert_event ev c =
     (if e_id ev \<in> set (map e_id (power_events c)) then Inl IntegrityError
      else if e_device_id ev \<notin> set (map d_id (devices c)) then Inl IntegrityError
      else Inr ((), c\<lparr>power_events := power_events c @ [ev]\<rparr>))"

text \<open>
  \<^verbatim>\<open>SELECT * FROM power_events WHERE device_id=? ORDER BY timestamp DESC LIMIT ?\<close>.
  The \<^verbatim>\<open>sqlite3\<close> module binds a Python integer as a signed 64-bit INTEGER and raises
  \<^verbatim>\<open>OverflowError\<close> for one that does not fit; a negative \<^verbatim>\<open>LIMIT\<close> is no limit in
  SQLite.
\<close>

definition select_events :: "db \<Rightarrow> string \<Rightarrow> int \<Rightarrow> error + PowerEvent list" where
  "select_events c device_id limit =
     (if limit < - (2 ^ 63) \<or> 2 ^ 63 \<le> limit then Inl OverflowError
      else (let rows = rev (sort_key e_timestamp
                         (filter (\<lambda>ev. e_device_id ev = device_id) (power_events c)))
            in Inr (if limit < 0 then rows else take (nat limit) rows)))"

text \<open>
  \<^verbatim>\<open>SELECT * FROM power_readings WHERE meter_id=? AND timestamp >= ? ORDER BY timestamp\<close>
\<close>

definition select_readings :: "db \<Rightarrow> string \<Rightarrow> timestamp \<Rightarrow> PowerReading list" where
  "select_readings c meter_id since =
     sort_key r_timestamp
       (filter (\<lambda>r. r_meter_id r = meter_id \<and> since \<le> r_timestamp r) (power_readings c))"

section \<open>PowerManager\<close>

text \<open>
  An operation that writes returns its result (\<open>Inl\<close> for a raised exception) and the
  store after it; an operation that only reads returns its result.
\<close>

definition get_device :: "db \<Rightarrow> string \<Rightarrow> error + DeviceRecord" where
  "get_device s device_id =
     (case find (\<lambda>d. d_id d = device_id) (devices s) of
        None \<Rightarrow> Inl (DeviceNotFound device_id)
      | Some d \<Rightarrow> Inr d)"

definition register_device ::
  "db \<Rightarrow> string \<Rightarrow> string \<Rightarrow> real \<Rightarrow> real option \<Rightarrow> (error + DeviceRecord) \<times> db" where
  "register_device s device_id name shutdown_threshold target_wh =
     (case db_conn (insert_or_replace_device
             \<lparr>d_id = device_id, d_name = name,
              d_shutdown_threshold = shutdown_threshold, d_target_wh = target_wh\<rparr>) s of
        (Inl err, s1) \<Rightarrow> (Inl err, s1)
      | (Inr _, s1) \<Rightarrow> (get_device s1 device_id, s1))"

definition get_meter :: "db \<Rightarrow> string \<Rightarrow> error + PowerMeter" where
  "get_meter s meter_id =
     (case find (\<lambda>m. m_id m = meter_id) (power_meters s) of
        None \<Rightarrow> Inl (MeterNotFound meter_id)
      | Some m \<Rightarrow> Inr m)"

text \<open>
  The columns \<^verbatim>\<open>add_meter\<close> does not insert take the schema's defaults:
  voltage 0.0, current_draw 0.0, charge_pct 100.0.
\<close>

definition add_meter ::
  "db \<Rightarrow> env \<Rightarrow> string \<Rightarrow> string \<Rightarrow> real \<Rightarrow> string option \<Rightarrow> (error + PowerMeter) \<times> db" where
  "add_meter s e device_id meter_type capacity_wh name =
     (case get_device s device_id of
        Inl err \<Rightarrow> (Inl err, s)
      | Inr _ \<Rightarrow>
          (let meter_id = env_uuid e in
           case db_conn (\<lambda>c. case MeterType_of meter_type of
                               None \<Rightarrow> Inl (InvalidEnum meter_type)
                             | Some t \<Rightarrow>
                                 insert_meter
                                   \<lparr>m_id = meter_id, m_device_id = device_id, m_type = t,
                                    m_voltage = 0, m_current_draw = 0,
                                    m_capacity_wh = capacity_wh, m_charge_pct = 100,
                                    m_name = name\<rparr> c) s of
             (Inl err, s1) \<Rightarrow> (Inl err, s1)
           | (Inr _, s1) \<Rightarrow> (get_meter s1 meter_id, s1)))"

text \<open>
  \<^verbatim>\<open>if device_id:\<close> is Python truthiness: the filter is added for a non-empty string
  only, so \<^verbatim>\<open>None\<close> and \<^verbatim>\<open>""\<close> both list every meter.
\<close>

definition list_meters :: "db \<Rightarrow> string option \<Rightarrow> PowerMeter list" where
  "list_meters s device_id =
     (case device_id of
        None \<Rightarrow> power_meters s
      | Some d \<Rightarrow>
          if d \<noteq> [] then filter (\<lambda>m. m_device_id m = d) (power_meters s)
          else power_meters s)"

definition trigger_event ::
  "db \<Rightarrow> env \<Rightarrow> string \<Rightarrow> string \<Rightarrow> real \<Rightarrow> string option \<Rightarrow> (error + PowerEvent) \<times> db" where
  "trigger_event s e device_id event_type val note =
     (case get_device s device_id of
        Inl err \<Rightarrow> (Inl err, s)
      | Inr _ \<Rightarrow>
          (let eid = env_uuid e; now = env_now e in
           case PowerEventType_of event_type of
             None \<Rightarrow> (Inl (InvalidEnum event_type), s)
           | Some etype \<Rightarrow>
               (let ev = \<lparr>e_id = eid, e_device_id = device_id, e_type = etype,
                          e_value = val, e_timestamp = now, e_note = note\<rparr> in
                case db_conn (insert_event ev) s of
                  (Inl err, s1) \<Rightarrow> (Inl err, s1)
                | (Inr _, s1) \<Rightarrow> (Inr ev, s1))))"

text \<open>
  \<^verbatim>\<open>log_power\<close>: \<open>e\<close> is the clock and uuid of the call itself, \<open>e2\<close> those of the nested
  \<^verbatim>\<open>trigger_event\<close> call. The reading and the meter update share one \<^verbatim>\<open>db_conn\<close>
  block; \<^verbatim>\<open>trigger_event\<close> runs after that block, in a block of its own.
\<close>

definition log_power ::
  "db \<Rightarrow> env \<Rightarrow> env \<Rightarrow> string \<Rightarrow> real \<Rightarrow> real \<Rightarrow> real option \<Rightarrow> (error + PowerReading) \<times> db" where
  "log_power s e e2 meter_id voltage current charge_pct =
     (case get_meter s meter_id of
        Inl err \<Rightarrow> (Inl err, s)
      | Inr meter \<Rightarrow>
          (let wattage = py_round (voltage * current) 4;
               pct0 = (case charge_pct of Some p \<Rightarrow> p | None \<Rightarrow> m_charge_pct meter);
               pct = max 0 (min 100 pct0);
               now = env_now e;
               rid = env_uuid e;
               reading = \<lparr>r_id = rid, r_meter_id = meter_id, r_voltage = voltage,
                          r_current_draw = current, r_wattage = wattage,
                          r_charge_pct = pct, r_timestamp = now\<rparr>
           in
           case db_conn (\<lambda>c. case insert_reading reading c of
                               Inl err \<Rightarrow> Inl err
                             | Inr (_, c1) \<Rightarrow> update_meter meter_id voltage current pct c1) s of
             (Inl err, s1) \<Rightarrow> (Inl err, s1)
           | (Inr _, s1) \<Rightarrow>
               if m_type meter = BATTERY then
                 if pct \<le> CRITICAL_BATTERY_THRESHOLD then
                   (case trigger_event s1 e2 (m_device_id meter) ''low_battery'' pct None of
                      (Inl err, s2) \<Rightarrow> (Inl err, s2)
                    | (Inr _, s2) \<Rightarrow> (Inr reading, s2))
                 else if pct \<le> LOW_BATTERY_THRESHOLD then
                   (case trigger_event s1 e2 (m_device_id meter) ''discharge'' pct None of
                      (Inl err, s2) \<Rightarrow> (Inl err, s2)
                    | (Inr _, s2) \<Rightarrow> (Inr reading, s2))
                 else (Inr reading, s1)
               else (Inr reading, s1)))"

definition calculate_wattage :: "db \<Rightarrow> string \<Rightarrow> error + real" where
  "calculate_wattage s meter_id =
     (case get_meter s meter_id of
        Inl err \<Rightarrow> Inl err
      | Inr meter \<Rightarrow> Inr (wattage meter))"

text \<open>\<open>None\<close> is Python's \<^verbatim>\<open>None\<close>: no estimate.\<close>

definition estimate_runtime :: "db \<Rightarrow> string \<Rightarrow> real option" where
  "estimate_runtime s device_id =
     (let meters = list_meters s (Some device_id);
          battery_meters = filter (\<lambda>m. m_type m = BATTERY \<and> m_current_draw m > 0) meters
      in case battery_meters of
           [] \<Rightarrow> None
         | bm # _ \<Rightarrow>
             (let remaining_wh = m_capacity_wh bm * (m_charge_pct bm / 100) in
              if wattage bm \<le> 0 then None
              else (let hours = remaining_wh / wattage bm in Some (py_round hours 2))))"

definition get_events :: "db \<Rightarrow> string \<Rightarrow> int \<Rightarrow> error + PowerEvent list" where
  "get_events s device_id limit = select_events s device_id limit"

record budget =
  total_wattage :: real
  battery_count :: nat
  solar_count :: nat
  avg_charge_pct :: "real option"
  estimated_runtime_hours :: "real option"
  states :: "PowerState list"

text \<open>
  The body of the \<^verbatim>\<open>try\<close> in \<^verbatim>\<open>power_budget_check\<close> for one id; \<open>Inl\<close> is the
  \<^verbatim>\<open>{"error": str(exc)}\<close> entry of the \<^verbatim>\<open>except\<close> branch.
\<close>

definition budget_entry :: "db \<Rightarrow> string \<Rightarrow> error + budget" where
  "budget_entry s dev_id =
     (case get_device s dev_id of
        Inl err \<Rightarrow> Inl err
      | Inr _ \<Rightarrow>
          (let meters = list_meters s (Some dev_id);
               total = sum_list (map wattage meters);
               battery_meters = filter (\<lambda>m. m_type m = BATTERY) meters;
               solar_meters = filter (\<lambda>m. m_type m = SOLAR) meters;
               runtime = estimate_runtime s dev_id
           in Inr \<lparr>total_wattage = py_round total 4,
                   battery_count = length battery_meters,
                   solar_count = length solar_meters,
                   avg_charge_pct =
                     (if battery_meters \<noteq> []
                      then Some (py_round (sum_list (map m_charge_pct battery_meters)
                                            / of_nat (length battery_meters)) 2)
                      else None),
                   estimated_runtime_hours = runtime,
                   states = map state meters\<rparr>))"

definition power_budget_check :: "db \<Rightarrow> string list \<Rightarrow> (string \<rightharpoonup> error + budget)" where
  "power_budget_check s device_ids =
     fold (\<lambda>dev_id results. results(dev_id \<mapsto> budget_entry s dev_id)) device_ids Map.empty"

text \<open>
  \<^verbatim>\<open>timedelta(hours=hours)\<close> in microseconds. A \<^verbatim>\<open>timedelta\<close> holds at most 999999999
  days in either direction; the constructor raises \<^verbatim>\<open>OverflowError\<close> beyond.
\<close>

definition hours_us :: "int \<Rightarrow> int" where
  "hours_us h = h * 3600000000"

definition timedelta_hours :: "int \<Rightarrow> error + int" where
  "timedelta_hours h =
     (if - 999999999 \<le> h div 24 \<and> h div 24 \<le> 999999999 then Inr (hours_us h)
      else Inl OverflowError)"

text \<open>
  A \<^verbatim>\<open>datetime\<close> lies between 0001-01-01T00:00:00 and 9999-12-31T23:59:59.999999
  (in microseconds since the epoch, UTC); \<^verbatim>\<open>datetime - timedelta\<close> raises
  \<^verbatim>\<open>OverflowError\<close> when the result does not.
\<close>

definition datetime_min :: timestamp where
  "datetime_min = - 62135596800000000"

definition datetime_max :: timestamp where
  "datetime_max = 253402300799999999"

definition datetime_sub :: "timestamp \<Rightarrow> int \<Rightarrow> error + timestamp" where
  "datetime_sub t d =
     (if datetime_min \<le> t - d \<and> t - d \<le> datetime_max then Inr (t - d)
      else Inl OverflowError)"

text \<open>\<^verbatim>\<open>datetime.now(timezone.utc) - timedelta(hours=hours)\<close>: the start of the window.\<close>

definition window_start :: "timestamp \<Rightarrow> int \<Rightarrow> error + timestamp" where
  "window_start now hours =
     (case timedelta_hours hours of
        Inl err \<Rightarrow> Inl err
      | Inr delta \<Rightarrow> datetime_sub now delta)"

definition get_history :: "db \<Rightarrow> timestamp \<Rightarrow> string \<Rightarrow> int \<Rightarrow> error + PowerReading list" where
  "get_history s now meter_id hours =
     (case window_start now hours of
        Inl err \<Rightarrow> Inl err
      | Inr since \<Rightarrow> Inr (select_readings s meter_id since))"

datatype meter_entry =
  MeterStats (me_meter_id: string) (me_type: MeterType) (me_current_state: PowerState)
    (me_avg_wattage: real) (me_max_wattage: real) (me_min_charge_pct: real)
    (me_reading_count: nat)
  | MeterEmpty (me_meter_id: string) (me_type: MeterType)

record report =
  rp_device_id :: string
  rp_period_days :: int
  rp_generated_at :: timestamp
  rp_meters :: "meter_entry list"
  rp_event_count :: nat
  rp_events :: "PowerEvent list"

text \<open>The body of the loop over the meters in \<^verbatim>\<open>export_report\<close>, for one meter.\<close>

definition meter_report :: "db \<Rightarrow> timestamp \<Rightarrow> int \<Rightarrow> PowerMeter \<Rightarrow> error + meter_entry" where
  "meter_report s now days m =
     (case get_history s now (m_id m) (days * 24) of
        Inl err \<Rightarrow> Inl err
      | Inr readings \<Rightarrow>
          Inr (case readings of
                 [] \<Rightarrow> MeterEmpty (m_id m) (m_type m)
               | r # rs \<Rightarrow>
                   (let wattages = map r_wattage readings;
                        charges = map r_charge_pct readings
                    in MeterStats (m_id m) (m_type m) (state m)
                         (py_round (sum_list wattages / of_nat (length wattages)) 4)
                         (fold max (map r_wattage rs) (r_wattage r))
                         (fold min (map r_charge_pct rs) (r_charge_pct r))
                         (length readings))))"

text \<open>A \<^verbatim>\<open>for\<close> loop that appends \<open>f x\<close> for each \<open>x\<close> and stops at the first exception.\<close>

fun collect :: "('a \<Rightarrow> error + 'b) \<Rightarrow> 'a list \<Rightarrow> error + 'b list" where
  "collect f [] = Inr []"
| "collect f (x # xs) =
     (case f x of
        Inl err \<Rightarrow> Inl err
      | Inr y \<Rightarrow> (case collect f xs of Inl err \<Rightarrow> Inl err | Inr ys \<Rightarrow> Inr (y # ys)))"

text \<open>
  \<^verbatim>\<open>export_report\<close> up to \<^verbatim>\<open>json.dumps\<close>: the report object. One clock reading
  \<open>now\<close> stands for the calls of \<^verbatim>\<open>datetime.now\<close> it makes.
\<close>

definition export_report :: "db \<Rightarrow> timestamp \<Rightarrow> string \<Rightarrow> int \<Rightarrow> error + report" where
  "export_report s now device_id days =
     (case get_device s device_id of
        Inl err \<Rightarrow> Inl err
      | Inr _ \<Rightarrow>
          (let meters = list_meters s (Some device_id) in
           case collect (meter_report s now days) meters of
             Inl err \<Rightarrow> Inl err
           | Inr entries \<Rightarrow>
               (case get_events s device_id 200 of
                  Inl err \<Rightarrow> Inl err
                | Inr events \<Rightarrow>
                    Inr \<lparr>rp_device_id = device_id, rp_period_days = days,
                         rp_generated_at = now, rp_meters = entries,
                         rp_event_count = length events,
                         rp_events = take 20 events\<rparr>)))"

section \<open>Sequences of operations\<close>

text \<open>
  The calls that write, each with the clock readings and uuids it draws; \<open>run\<close> is the
  store they leave when made in turn on the empty store of \<^verbatim>\<open>init_db\<close>. A call that
  raises leaves what it had committed.
\<close>

datatype op =
  RegisterDevice string string real "real option"
  | AddMeter env string string real "string option"
  | LogPower env env string real real "real option"
  | TriggerEvent env string string real "string option"

fun step :: "db \<Rightarrow> op \<Rightarrow> db" where
  "step s (RegisterDevice device_id name thr target) =
     snd (register_device s device_id name thr target)"
| "step s (AddMeter e device_id meter_type capacity name) =
     snd (add_meter s e device_id meter_type capacity name)"
| "step s (LogPower e e2 meter_id voltage current charge_pct) =
     snd (log_power s e e2 meter_id voltage current charge_pct)"
| "step s (TriggerEvent e device_id event_type val note) =
     snd (trigger_event s e device_id event_type val note)"

definition run :: "op list \<Rightarrow> db" where
  "run ops = foldl step init_db ops"

text \<open>An operation that is a \<^verbatim>\<open>log_power\<close> call on the meter \<open>mid\<close>.\<close>

fun logs_meter :: "string \<Rightarrow> op \<Rightarrow> bool" where
  "logs_meter mid (LogPower e e2 meter_id voltage current charge_pct) = (meter_id = mid)"
| "logs_meter mid _ = False"

section \<open>The pieces of one call of log_power\<close>

text \<open>
  Names for the values one call of \<^verbatim>\<open>log_power\<close> computes and the rows it writes;
  the lemmas below relate them to \<open>log_power\<close> itself.
\<close>

definition clamp_pct :: "PowerMeter \<Rightarrow> real option \<Rightarrow> real" where
  "clamp_pct meter charge_pct =
     max 0 (min 100 (case charge_pct of Some p \<Rightarrow> p | None \<Rightarrow> m_charge_pct meter))"

definition reading_row :: "env \<Rightarrow> string \<Rightarrow> real \<Rightarrow> real \<Rightarrow> real \<Rightarrow> PowerReading" where
  "reading_row e meter_id voltage current pct =
     \<lparr>r_id = env_uuid e, r_meter_id = meter_id, r_voltage = voltage,
      r_current_draw = current, r_wattage = py_round (voltage * current) 4,
      r_charge_pct = pct, r_timestamp = env_now e\<rparr>"

definition live_update :: "string \<Rightarrow> real \<Rightarrow> real \<Rightarrow> real \<Rightarrow> PowerMeter \<Rightarrow> PowerMeter" where
  "live_update meter_id voltage current pct =
     (\<lambda>m. if m_id m = meter_id
          then m\<lparr>m_voltage := voltage, m_current_draw := current, m_charge_pct := pct\<rparr>
          else m)"

definition logged :: "db \<Rightarrow> env \<Rightarrow> string \<Rightarrow> real \<Rightarrow> real \<Rightarrow> real \<Rightarrow> db" where
  "logged s e meter_id voltage current pct =
     s\<lparr>power_readings := power_readings s @ [reading_row e meter_id voltage current pct],
       power_meters := map (live_update meter_id voltage current pct) (power_meters s)\<rparr>"

definition event_row :: "env \<Rightarrow> string \<Rightarrow> PowerEventType \<Rightarrow> real \<Rightarrow> PowerEvent" where
  "event_row e2 device_id ty pct =
     \<lparr>e_id = env_uuid e2, e_device_id = device_id, e_type = ty, e_value = pct,
      e_timestamp = env_now e2, e_note = None\<rparr>"

definition auto_events :: "env \<Rightarrow> PowerMeter \<Rightarrow> real \<Rightarrow> PowerEvent list" where
  "auto_events e2 m pct =
     (if m_type m = BATTERY \<and> pct \<le> 5 then [event_row e2 (m_device_id m) LOW_BATTERY pct]
      else if m_type m = BATTERY \<and> pct \<le> 20 then [event_row e2 (m_device_id m) DISCHARGE pct]
      else [])"

section \<open>Views of the store\<close>

text \<open>The meters of a device: the rows of \<^verbatim>\<open>power_meters\<close> that reference it.\<close>

definition device_meters :: "db \<Rightarrow> string \<Rightarrow> PowerMeter list" where
  "device_meters s device_id = filter (\<lambda>m. m_device_id m = device_id) (power_meters s)"

text \<open>The events recorded for a device, in insertion order.\<close>

definition device_events :: "db \<Rightarrow> string \<Rightarrow> PowerEvent list" where
  "device_events s device_id = filter (\<lambda>ev. e_device_id ev = device_id) (power_events s)"

text \<open>Every stored charge lies in [0, 100].\<close>

definition pct_ok :: "db \<Rightarrow> bool" where
  "pct_ok s =
     (list_all (\<lambda>m. 0 \<le> m_charge_pct m \<and> m_charge_pct m \<le> 100) (power_meters s) \<and>
      list_all (\<lambda>r. 0 \<le> r_charge_pct r \<and> r_charge_pct r \<le> 100) (power_readings s))"

section \<open>Scenarios\<close>

text \<open>
  The fixtures of \<^verbatim>\<open>test_power_manager.py\<close>: the device dev-001 with one battery
  meter of 50 Wh.
\<close>

definition fixture_ops :: "op list" where
  "fixture_ops =
     [RegisterDevice ''dev-001'' ''Edge Node'' 3 None,
      AddMeter \<lparr>env_now = 1, env_uuid = ''m1''\<rparr> ''dev-001'' ''battery'' 50 (Some ''Main Battery'')]"

text \<open>The fixtures after \<^verbatim>\<open>log_power(meter.id, 12.0, 2.0, 10.0)\<close> at time 2.\<close>

definition fixture_logged :: db where
  "fixture_logged =
     snd (log_power (run fixture_ops) \<lparr>env_now = 2, env_uuid = ''r1''\<rparr>
            \<lparr>env_now = 3, env_uuid = ''e1''\<rparr> ''m1'' 12 2 (Some 10))"

text \<open>
  The fixtures with a second device whose id is the empty string and which has no meter,
  after \<^verbatim>\<open>log_power(12.0, 2.0, 80.0)\<close> on the battery meter of dev-001.
\<close>

definition empty_id_ops :: "op list" where
  "empty_id_ops =
     [RegisterDevice '''' ''Hub'' 3 None,
      RegisterDevice ''dev-001'' ''Edge Node'' 3 None,
      AddMeter \<lparr>env_now = 1, env_uuid = ''m1''\<rparr> ''dev-001'' ''battery'' 50 (Some ''Main Battery''),
      LogPower \<lparr>env_now = 2, env_uuid = ''r1''\<rparr> \<lparr>env_now = 3, env_uuid = ''e1''\<rparr>
        ''m1'' 12 2 (Some 80)]"

text \<open>
  A device that raises \<open>n\<close> events: \<^verbatim>\<open>register_device\<close>, then \<open>n\<close> calls of
  \<^verbatim>\<open>trigger_event\<close> with distinct ids at the times \<open>0, 1, \<dots>\<close>.
\<close>

definition burst_event :: "nat \<Rightarrow> PowerEvent" where
  "burst_event k =
     \<lparr>e_id = replicate (Suc k) (CHR ''e''), e_device_id = ''dev-001'', e_type = RESTORE,
      e_value = 0, e_timestamp = int k, e_note = None\<rparr>"

definition burst_op :: "nat \<Rightarrow> op" where
  "burst_op k =
     TriggerEvent \<lparr>env_now = int k, env_uuid = replicate (Suc k) (CHR ''e'')\<rparr>
       ''dev-001'' ''restore'' 0 None"

definition burst_ops :: "nat \<Rightarrow> op list" where
  "burst_ops n = RegisterDevice ''dev-001'' ''Edge Node'' 3 None # map burst_op [0..<n]"

section \<open>Storage failures\<close>

text \<open>
  Every \<^verbatim>\<open>with db_conn(...)\<close> block opens a connection of its own and can meet a
  failure of the storage layer (the database is locked, the disk is full):
  \<^verbatim>\<open>sqlite3.OperationalError\<close> is raised inside the block, which rolls back and
  re-raises. \<open>flt k\<close> says whether the \<open>k\<close>-th block a call opens fails so, counting
  from 0 in the order the call opens them. The operations above are the ones below with
  no failure.
\<close>

type_synonym faults = "nat \<Rightarrow> bool"

definition db_conn_io :: "bool \<Rightarrow> (db \<Rightarrow> error + 'a \<times> db) \<Rightarrow> db \<Rightarrow> (error + 'a) \<times> db" where
  "db_conn_io fault body s =
     (if fault then (Inl OperationalError, s) else db_conn body s)"

definition get_device_io :: "bool \<Rightarrow> db \<Rightarrow> string \<Rightarrow> error + DeviceRecord" where
  "get_device_io fault s device_id =
     (if fault then Inl OperationalError else get_device s device_id)"

definition get_meter_io :: "bool \<Rightarrow> db \<Rightarrow> string \<Rightarrow> error + PowerMeter" where
  "get_meter_io fault s meter_id =
     (if fault then Inl OperationalError else get_meter s meter_id)"

definition register_device_io ::
  "faults \<Rightarrow> db \<Rightarrow> string \<Rightarrow> string \<Rightarrow> real \<Rightarrow> real option \<Rightarrow> (error + DeviceRecord) \<times> db" where
  "register_device_io flt s device_id name shutdown_threshold target_wh =
     (case db_conn_io (flt 0) (insert_or_replace_device
             \<lparr>d_id = device_id, d_name = name,
              d_shutdown_threshold = shutdown_threshold, d_target_wh = target_wh\<rparr>) s of
        (Inl err, s1) \<Rightarrow> (Inl err, s1)
      | (Inr _, s1) \<Rightarrow> (get_device_io (flt 1) s1 device_id, s1))"

definition add_meter_io ::
  "faults \<Rightarrow> db \<Rightarrow> env \<Rightarrow> string \<Rightarrow> string \<Rightarrow> real \<Rightarrow> string option
     \<Rightarrow> (error + PowerMeter) \<times> db" where
  "add_meter_io flt s e device_id meter_type capacity_wh name =
     (case get_device_io (flt 0) s device_id of
        Inl err \<Rightarrow> (Inl err, s)
      | Inr _ \<Rightarrow>
          (let meter_id = env_uuid e in
           case db_conn_io (flt 1)
                  (\<lambda>c. case MeterType_of meter_type of
                          None \<Rightarrow> Inl (InvalidEnum meter_type)
                        | Some t \<Rightarrow>
                            insert_meter
                              \<lparr>m_id = meter_id, m_device_id = device_id, m_type = t,
                               m_voltage = 0, m_current_draw = 0,
                               m_capacity_wh = capacity_wh, m_charge_pct = 100,
                               m_name = name\<rparr> c) s of
             (Inl err, s1) \<Rightarrow> (Inl err, s1)
           | (Inr _, s1) \<Rightarrow> (get_meter_io (flt 2) s1 meter_id, s1)))"

definition trigger_event_io ::
  "faults \<Rightarrow> db \<Rightarrow> env \<Rightarrow> string \<Rightarrow> string \<Rightarrow> real \<Rightarrow> string option
     \<Rightarrow> (error + PowerEvent) \<times> db" where
  "trigger_event_io flt s e device_id event_type val note =
     (case get_device_io (flt 0) s device_id of
        Inl err \<Rightarrow> (Inl err, s)
      | Inr _ \<Rightarrow>
          (let eid = env_uuid e; now = env_now e in
           case PowerEventType_of event_type of
             None \<Rightarrow> (Inl (InvalidEnum event_type), s)
           | Some etype \<Rightarrow>
               (let ev = \<lparr>e_id = eid, e_device_id = device_id, e_type = etype,
                          e_value = val, e_timestamp = now, e_note = note\<rparr> in
                case db_conn_io (flt 1) (insert_event ev) s of
                  (Inl err, s1) \<Rightarrow> (Inl err, s1)
                | (Inr _, s1) \<Rightarrow> (Inr ev, s1))))"

text \<open>
  \<^verbatim>\<open>log_power\<close> opens the block of \<^verbatim>\<open>get_meter\<close> (0), the block that inserts the
  reading and updates the meter (1), and through \<^verbatim>\<open>trigger_event\<close> the block of
  \<^verbatim>\<open>get_device\<close> (2) and the block that inserts the event (3).
\<close>

definition log_power_io ::
  "faults \<Rightarrow> db \<Rightarrow> env \<Rightarrow> env \<Rightarrow> string \<Rightarrow> real \<Rightarrow> real \<Rightarrow> real option
     \<Rightarrow> (error + PowerReading) \<times> db" where
  "log_power_io flt s e e2 meter_id voltage current charge_pct =
     (case get_meter_io (flt 0) s meter_id of
        Inl err \<Rightarrow> (Inl err, s)
      | Inr meter \<Rightarrow>
          (let wattage = py_round (voltage * current) 4;
               pct0 = (case charge_pct of Some p \<Rightarrow> p | None \<Rightarrow> m_charge_pct meter);
               pct = max 0 (min 100 pct0);
               now = env_now e;
               rid = env_uuid e;
               reading = \<lparr>r_id = rid, r_meter_id = meter_id, r_voltage = voltage,
                          r_current_draw = current, r_wattage = wattage,
                          r_charge_pct = pct, r_timestamp = now\<rparr>
           in
           case db_conn_io (flt 1)
                  (\<lambda>c. case insert_reading reading c of
                          Inl err \<Rightarrow> Inl err
                        | Inr (_, c1) \<Rightarrow> update_meter meter_id voltage current pct c1) s of
             (Inl err, s1) \<Rightarrow> (Inl err, s1)
           | (Inr _, s1) \<Rightarrow>
               if m_type meter = BATTERY then
                 if pct \<le> CRITICAL_BATTERY_THRESHOLD then
                   (case trigger_event_io (\<lambda>k. flt (k + 2)) s1 e2 (m_device_id meter)
                           ''low_battery'' pct None of
                      (Inl err, s2) \<Rightarrow> (Inl err, s2)
                    | (Inr _, s2) \<Rightarrow> (Inr reading, s2))
                 else if pct \<le> LOW_BATTERY_THRESHOLD then
                   (case trigger_event_io (\<lambda>k. flt (k + 2)) s1 e2 (m_device_id meter)
                           ''discharge'' pct None of
                      (Inl err, s2) \<Rightarrow> (Inl err, s2)
                    | (Inr _, s2) \<Rightarrow> (Inr reading, s2))
                 else (Inr reading, s1)
               else (Inr reading, s1)))"

text \<open>The \<open>n\<close>-th block of a call fails, the others do not.\<close>

definition fail_at :: "nat \<Rightarrow> faults" where
  "fail_at n k = (k = n)"

section \<open>Effects of the operations\<close>

subsection \<open>Lookups\<close>

lemma get_device_Inr:
  "device_id \<in> set (map d_id (devices s)) \<Longrightarrow> \<exists>d. get_device s device_id = Inr d \<and> d_id d = device_id"
  by (auto simp: get_device_def find_None_iff split: option.splits dest: find_Some_iff[THEN iffD1])

lemma get_device_Inl:
  "device_id \<notin> set (map d_id (devices s)) \<Longrightarrow> get_device s device_id = Inl (DeviceNotFound device_id)"
  by (auto simp: get_device_def find_None_iff split: option.splits dest!: find_Some_iff[THEN iffD1])

lemma get_device_InrD:
  "get_device s device_id = Inr d \<Longrightarrow> device_id \<in> set (map d_id (devices s)) \<and> d_id d = device_id"
  by (auto simp: get_device_def find_Some_iff split: option.splits)

lemma get_meter_InrD:
  "get_meter s meter_id = Inr m \<Longrightarrow> m \<in> set (power_meters s) \<and> m_id m = meter_id"
  by (auto simp: get_meter_def find_Some_iff split: option.splits)

subsection \<open>trigger_event\<close>

lemma trigger_event_ok:
  assumes "device_id \<in> set (map d_id (devices s))"
    and "PowerEventType_of t = Some ty"
    and "env_uuid e \<notin> set (map e_id (power_events s))"
  shows "trigger_event s e device_id t v n =
           (Inr \<lparr>e_id = env_uuid e, e_device_id = device_id, e_type = ty, e_value = v,
                 e_timestamp = env_now e, e_note = n\<rparr>,
            s\<lparr>power_events := power_events s @
                 [\<lparr>e_id = env_uuid e, e_device_id = device_id, e_type = ty, e_value = v,
                   e_timestamp = env_now e, e_note = n\<rparr>]\<rparr>)"
proof -
  from get_device_Inr[OF assms(1)] obtain d where "get_device s device_id = Inr d" by blast
  with assms show ?thesis
    by (simp add: trigger_event_def db_conn_def insert_event_def Let_def)
qed

lemma trigger_event_shape:
  "(\<exists>err. trigger_event s e device_id t v n = (Inl err, s)) \<or>
   (\<exists>ty. PowerEventType_of t = Some ty \<and> device_id \<in> set (map d_id (devices s)) \<and>
         env_uuid e \<notin> set (map e_id (power_events s)) \<and>
         trigger_event s e device_id t v n =
           (Inr \<lparr>e_id = env_uuid e, e_device_id = device_id, e_type = ty, e_value = v,
                 e_timestamp = env_now e, e_note = n\<rparr>,
            s\<lparr>power_events := power_events s @
                 [\<lparr>e_id = env_uuid e, e_device_id = device_id, e_type = ty, e_value = v,
                   e_timestamp = env_now e, e_note = n\<rparr>]\<rparr>))"
  by (auto simp: trigger_event_def db_conn_def insert_event_def Let_def
           split: sum.splits option.splits dest: get_device_InrD)

subsection \<open>log_power\<close>

lemma log_power_no_meter:
  "get_meter s meter_id = Inl err \<Longrightarrow>
   log_power s e e2 meter_id voltage current charge_pct = (Inl err, s)"
  by (simp add: log_power_def)

lemma log_power_dup_reading:
  "get_meter s meter_id = Inr m \<Longrightarrow> env_uuid e \<in> set (map r_id (power_readings s)) \<Longrightarrow>
   log_power s e e2 meter_id voltage current charge_pct = (Inl IntegrityError, s)"
  by (simp add: log_power_def db_conn_def insert_reading_def Let_def)

lemma log_power_block:
  assumes "get_meter s meter_id = Inr m"
    and "env_uuid e \<notin> set (map r_id (power_readings s))"
  shows "log_power s e e2 meter_id voltage current charge_pct =
     (let pct = clamp_pct m charge_pct;
          reading = reading_row e meter_id voltage current pct;
          s1 = logged s e meter_id voltage current pct
      in if m_type m = BATTERY \<and> pct \<le> 5 then
           (case trigger_event s1 e2 (m_device_id m) ''low_battery'' pct None of
              (Inl err, s2) \<Rightarrow> (Inl err, s2)
            | (Inr _, s2) \<Rightarrow> (Inr reading, s2))
         else if m_type m = BATTERY \<and> pct \<le> 20 then
           (case trigger_event s1 e2 (m_device_id m) ''discharge'' pct None of
              (Inl err, s2) \<Rightarrow> (Inl err, s2)
            | (Inr _, s2) \<Rightarrow> (Inr reading, s2))
         else (Inr reading, s1))"
proof -
  from get_meter_InrD[OF assms(1)] have "meter_id \<in> set (map m_id (power_meters s))"
    by force
  with assms show ?thesis
    by (simp add: log_power_def db_conn_def insert_reading_def update_meter_def Let_def
          clamp_pct_def reading_row_def logged_def live_update_def
          CRITICAL_BATTERY_THRESHOLD_def LOW_BATTERY_THRESHOLD_def cong: if_cong)
qed

lemma logged_fields [simp]:
  "devices (logged s e meter_id voltage current pct) = devices s"
  "power_events (logged s e meter_id voltage current pct) = power_events s"
  "power_readings (logged s e meter_id voltage current pct) =
     power_readings s @ [reading_row e meter_id voltage current pct]"
  "power_meters (logged s e meter_id voltage current pct) =
     map (live_update meter_id voltage current pct) (power_meters s)"
  by (simp_all add: logged_def)

lemma log_power_result:
  assumes "get_meter s meter_id = Inr m"
    and "env_uuid e \<notin> set (map r_id (power_readings s))"
  shows "log_power s e e2 meter_id voltage current charge_pct =
           (Inr (reading_row e meter_id voltage current (clamp_pct m charge_pct)),
            (logged s e meter_id voltage current (clamp_pct m charge_pct))
              \<lparr>power_events := power_events s @ auto_events e2 m (clamp_pct m charge_pct)\<rparr>)
         \<and> (auto_events e2 m (clamp_pct m charge_pct) = [] \<or>
              m_device_id m \<in> set (map d_id (devices s)) \<and>
              env_uuid e2 \<notin> set (map e_id (power_events s)))
       \<or> (\<exists>err. auto_events e2 m (clamp_pct m charge_pct) \<noteq> [] \<and>
             (m_device_id m \<notin> set (map d_id (devices s)) \<or>
              env_uuid e2 \<in> set (map e_id (power_events s))) \<and>
             log_power s e e2 meter_id voltage current charge_pct =
               (Inl err, logged s e meter_id voltage current (clamp_pct m charge_pct)))"
proof -
  define pct where "pct = clamp_pct m charge_pct"
  define s1 where "s1 = logged s e meter_id voltage current pct"
  have ev: "power_events s1 = power_events s" "devices s1 = devices s"
    by (simp_all add: s1_def)
  then have nil: "s1\<lparr>power_events := power_events s\<rparr> = s1" by simp
  note blk = log_power_block[OF assms, of e2 voltage current charge_pct,
      unfolded Let_def, folded pct_def, folded s1_def]
  show ?thesis
  proof (cases "auto_events e2 m pct = []")
    case True
    then have c: "\<not> (m_type m = BATTERY \<and> pct \<le> 5)" "\<not> (m_type m = BATTERY \<and> pct \<le> 20)"
      by (auto simp: auto_events_def split: if_splits)
    have "log_power s e e2 meter_id voltage current charge_pct =
            (Inr (reading_row e meter_id voltage current pct), s1)"
      unfolding blk if_not_P[OF c(1)] if_not_P[OF c(2)] ..
    with True nil show ?thesis
      by (simp add: pct_def[symmetric] s1_def[symmetric])
  next
    case False
    then obtain t ty where
      sel: "log_power s e e2 meter_id voltage current charge_pct =
              (case trigger_event s1 e2 (m_device_id m) t pct None of
                 (Inl err, s2) \<Rightarrow> (Inl err, s2)
               | (Inr _, s2) \<Rightarrow> (Inr (reading_row e meter_id voltage current pct), s2))"
      and ty: "PowerEventType_of t = Some ty"
      and au: "auto_events e2 m pct = [event_row e2 (m_device_id m) ty pct]"
    proof (cases "m_type m = BATTERY \<and> pct \<le> 5")
      case True
      with blk have "log_power s e e2 meter_id voltage current charge_pct =
              (case trigger_event s1 e2 (m_device_id m) ''low_battery'' pct None of
                 (Inl err, s2) \<Rightarrow> (Inl err, s2)
               | (Inr _, s2) \<Rightarrow> (Inr (reading_row e meter_id voltage current pct), s2))"
        by simp
      moreover have "PowerEventType_of ''low_battery'' = Some LOW_BATTERY"
        by (simp add: PowerEventType_of_def)
      moreover from True have "auto_events e2 m pct = [event_row e2 (m_device_id m) LOW_BATTERY pct]"
        by (simp add: auto_events_def)
      ultimately show ?thesis by (rule that)
    next
      case c: False
      with False have l: "m_type m = BATTERY \<and> pct \<le> 20"
        by (auto simp: auto_events_def split: if_splits)
      have "log_power s e e2 meter_id voltage current charge_pct =
              (case trigger_event s1 e2 (m_device_id m) ''discharge'' pct None of
                 (Inl err, s2) \<Rightarrow> (Inl err, s2)
               | (Inr _, s2) \<Rightarrow> (Inr (reading_row e meter_id voltage current pct), s2))"
        unfolding blk if_not_P[OF c] if_P[OF l] ..
      moreover have "PowerEventType_of ''discharge'' = Some DISCHARGE"
        by (simp add: PowerEventType_of_def)
      moreover from c l have "auto_events e2 m pct = [event_row e2 (m_device_id m) DISCHARGE pct]"
        by (auto simp add: auto_events_def)
      ultimately show ?thesis by (rule that)
    qed
    show ?thesis
    proof (cases "m_device_id m \<in> set (map d_id (devices s)) \<and>
                  env_uuid e2 \<notin> set (map e_id (power_events s))")
      case True
      then have "trigger_event s1 e2 (m_device_id m) t pct None =
          (Inr (event_row e2 (m_device_id m) ty pct),
           s1\<lparr>power_events := power_events s @ [event_row e2 (m_device_id m) ty pct]\<rparr>)"
        using trigger_event_ok[of "m_device_id m" s1 t ty e2 pct None] ty
        by (simp add: ev event_row_def)
      with True sel au show ?thesis
        by (simp add: pct_def[symmetric] s1_def[symmetric])
    next
      case nok: False
      from trigger_event_shape[of s1 e2 "m_device_id m" t pct None] nok
      obtain err where "trigger_event s1 e2 (m_device_id m) t pct None = (Inl err, s1)"
        by (auto simp: ev)
      with nok sel au show ?thesis
        by (auto simp add: pct_def[symmetric] s1_def[symmetric])
    qed
  qed
qed

lemma log_power_InrD:
  assumes "log_power s e e2 meter_id voltage current charge_pct = (Inr r, s')"
  shows "\<exists>m. get_meter s meter_id = Inr m
           \<and> env_uuid e \<notin> set (map r_id (power_readings s))
           \<and> r = reading_row e meter_id voltage current (clamp_pct m charge_pct)
           \<and> s' = (logged s e meter_id voltage current (clamp_pct m charge_pct))
                    \<lparr>power_events := power_events s @ auto_events e2 m (clamp_pct m charge_pct)\<rparr>"
proof (cases "get_meter s meter_id")
  case (Inl err)
  with assms show ?thesis by (simp add: log_power_no_meter)
next
  case (Inr m)
  show ?thesis
  proof (cases "env_uuid e \<in> set (map r_id (power_readings s))")
    case True
    with Inr assms show ?thesis by (simp add: log_power_dup_reading)
  next
    case False
    from log_power_result[OF Inr False, of e2 voltage current charge_pct] assms Inr False
    show ?thesis by auto
  qed
qed

lemma log_power_InlD:
  assumes "log_power s e e2 meter_id voltage current charge_pct = (Inl err, s')"
  shows "s' = s \<or>
         (\<exists>m. get_meter s meter_id = Inr m
            \<and> auto_events e2 m (clamp_pct m charge_pct) \<noteq> []
            \<and> s' = logged s e meter_id voltage current (clamp_pct m charge_pct))"
proof (cases "get_meter s meter_id")
  case (Inl err)
  with assms show ?thesis by (simp add: log_power_no_meter)
next
  case (Inr m)
  show ?thesis
  proof (cases "env_uuid e \<in> set (map r_id (power_readings s))")
    case True
    with Inr assms show ?thesis by (simp add: log_power_dup_reading)
  next
    case False
    from log_power_result[OF Inr False, of e2 voltage current charge_pct] assms Inr False
    show ?thesis by auto
  qed
qed

lemma log_power_ok:
  assumes "get_meter s meter_id = Inr m"
    and "env_uuid e \<notin> set (map r_id (power_readings s))"
    and "m_device_id m \<in> set (map d_id (devices s))"
    and "env_uuid e2 \<notin> set (map e_id (power_events s))"
  shows "log_power s e e2 meter_id voltage current charge_pct =
     (Inr (reading_row e meter_id voltage current (clamp_pct m charge_pct)),
      (logged s e meter_id voltage current (clamp_pct m charge_pct))
        \<lparr>power_events := power_events s @ auto_events e2 m (clamp_pct m charge_pct)\<rparr>)"
  using log_power_result[OF assms(1,2), of e2 voltage current charge_pct] assms(3,4)
  by auto

lemma log_power_snd:
  "snd (log_power s e e2 meter_id voltage current charge_pct) = s \<or>
   (\<exists>m evs. get_meter s meter_id = Inr m \<and> length evs \<le> 1 \<and>
      snd (log_power s e e2 meter_id voltage current charge_pct) =
        (logged s e meter_id voltage current (clamp_pct m charge_pct))
          \<lparr>power_events := power_events s @ evs\<rparr>)"
proof (cases "log_power s e e2 meter_id voltage current charge_pct")
  case (Pair res s')
  show ?thesis
  proof (cases res)
    case (Inl err)
    from log_power_InlD[OF Pair[unfolded Inl]] show ?thesis
    proof (elim disjE exE conjE)
      assume "s' = s" with Pair show ?thesis by simp
    next
      fix m assume "get_meter s meter_id = Inr m"
        and "s' = logged s e meter_id voltage current (clamp_pct m charge_pct)"
      with Pair show ?thesis
        by (intro disjI2 exI[of _ m] exI[of _ "[]"]) (simp add: logged_def)
    qed
  next
    case (Inr r)
    from log_power_InrD[OF Pair[unfolded Inr]] obtain m where
      "get_meter s meter_id = Inr m"
      "s' = (logged s e meter_id voltage current (clamp_pct m charge_pct))
              \<lparr>power_events := power_events s @ auto_events e2 m (clamp_pct m charge_pct)\<rparr>"
      by blast
    with Pair show ?thesis
      by (intro disjI2 exI[of _ m] exI[of _ "auto_events e2 m (clamp_pct m charge_pct)"])
         (simp add: auto_events_def)
  qed
qed

subsection \<open>add_meter and register_device\<close>

lemma find_snoc:
  "find P (xs @ [y]) = (case find P xs of None \<Rightarrow> (if P y then Some y else None) | Some x \<Rightarrow> Some x)"
  by (induction xs) auto

lemma add_meter_ok:
  assumes "device_id \<in> set (map d_id (devices s))"
    and "MeterType_of meter_type = Some ty"
    and "env_uuid e \<notin> set (map m_id (power_meters s))"
  shows "add_meter s e device_id meter_type capacity_wh name =
           (Inr \<lparr>m_id = env_uuid e, m_device_id = device_id, m_type = ty,
                 m_voltage = 0, m_current_draw = 0, m_capacity_wh = capacity_wh,
                 m_charge_pct = 100, m_name = name\<rparr>,
            s\<lparr>power_meters := power_meters s @
                 [\<lparr>m_id = env_uuid e, m_device_id = device_id, m_type = ty,
                   m_voltage = 0, m_current_draw = 0, m_capacity_wh = capacity_wh,
                   m_charge_pct = 100, m_name = name\<rparr>]\<rparr>)"
proof -
  from get_device_Inr[OF assms(1)] obtain d where d: "get_device s device_id = Inr d" by blast
  have nf: "find (\<lambda>m. m_id m = env_uuid e) (power_meters s) = None"
    using assms(3) by (force simp: find_None_iff)
  show ?thesis
    using assms d nf
    by (simp add: add_meter_def db_conn_def insert_meter_def Let_def get_meter_def find_snoc)
qed

lemma add_meter_shape:
  "snd (add_meter s e device_id meter_type capacity_wh name) = s \<or>
   (\<exists>ty. device_id \<in> set (map d_id (devices s)) \<and>
      snd (add_meter s e device_id meter_type capacity_wh name) =
        s\<lparr>power_meters := power_meters s @
             [\<lparr>m_id = env_uuid e, m_device_id = device_id, m_type = ty,
               m_voltage = 0, m_current_draw = 0, m_capacity_wh = capacity_wh,
               m_charge_pct = 100, m_name = name\<rparr>]\<rparr>)"
proof (cases "device_id \<in> set (map d_id (devices s)) \<and> (\<exists>ty. MeterType_of meter_type = Some ty)
     \<and> env_uuid e \<notin> set (map m_id (power_meters s))")
  case True
  then obtain ty where "MeterType_of meter_type = Some ty" by blast
  with True show ?thesis by (auto simp: add_meter_ok)
next
  case False
  then have "snd (add_meter s e device_id meter_type capacity_wh name) = s"
    by (auto simp: add_meter_def db_conn_def insert_meter_def Let_def
          split: sum.splits option.splits dest: get_device_InrD)
  then show ?thesis ..
qed

lemma py_round_zero: "py_round 0 n = 0"
  by (simp add: py_round_def)

lemma register_device_snd:
  "snd (register_device s device_id name thr target) =
     s\<lparr>devices := filter (\<lambda>x. d_id x \<noteq> device_id) (devices s) @
        [\<lparr>d_id = device_id, d_name = name, d_shutdown_threshold = thr, d_target_wh = target\<rparr>]\<rparr>"
  by (simp add: register_device_def db_conn_def insert_or_replace_device_def)

subsection \<open>A meter between two log_power calls\<close>

lemma find_live_update_other:
  "other \<noteq> mid \<Longrightarrow>
   find (\<lambda>m. m_id m = mid) (map (live_update other v c p) xs) = find (\<lambda>m. m_id m = mid) xs"
  by (induction xs) (auto simp: live_update_def)

lemma find_live_update_same:
  "find (\<lambda>m. m_id m = mid) (map (live_update mid v c p) xs) =
     map_option (\<lambda>m. m\<lparr>m_voltage := v, m_current_draw := c, m_charge_pct := p\<rparr>)
       (find (\<lambda>m. m_id m = mid) xs)"
  by (induction xs) (auto simp: live_update_def)

lemma step_keeps_meter:
  assumes "get_meter s mid = Inr m" and "\<not> logs_meter mid x"
  shows "get_meter (step s x) mid = Inr m"
proof (cases x)
  case (RegisterDevice device_id name thr target)
  then show ?thesis using assms(1)
    by (simp add: register_device_snd get_meter_def)
next
  case (AddMeter e device_id meter_type capacity name)
  from add_meter_shape[of s e device_id meter_type capacity name] assms(1) AddMeter
  show ?thesis
    by (auto simp: get_meter_def find_snoc split: option.splits)
next
  case (LogPower e e2 meter_id voltage current charge_pct)
  with assms(2) have ne: "meter_id \<noteq> mid" by simp
  from log_power_snd[of s e e2 meter_id voltage current charge_pct] assms(1) LogPower ne
  show ?thesis
    by (auto simp: get_meter_def find_live_update_other)
next
  case (TriggerEvent e device_id event_type val nt)
  from trigger_event_shape[of s e device_id event_type val nt] assms(1) TriggerEvent
  show ?thesis
    by (auto simp: get_meter_def)
qed

lemma foldl_step_keeps_meter:
  "get_meter s mid = Inr m \<Longrightarrow> \<not> list_ex (logs_meter mid) ops \<Longrightarrow>
   get_meter (foldl step s ops) mid = Inr m"
  by (induction ops arbitrary: s) (auto simp: step_keeps_meter)

subsection \<open>Invariants of every reachable store\<close>

lemma run_Nil: "run [] = init_db"
  by (simp add: run_def)

lemma run_snoc: "run (ops @ [x]) = step (run ops) x"
  by (simp add: run_def)

lemma live_update_device [simp]: "m_device_id (live_update mid v c p m) = m_device_id m"
  by (simp add: live_update_def)

lemma clamp_pct_range: "0 \<le> clamp_pct m p \<and> clamp_pct m p \<le> 100"
  by (simp add: clamp_pct_def)

lemma step_fk:
  assumes "\<forall>m\<in>set (power_meters s). m_device_id m \<in> set (map d_id (devices s))"
  shows "\<forall>m\<in>set (power_meters (step s x)). m_device_id m \<in> set (map d_id (devices (step s x)))"
proof (cases x)
  case (RegisterDevice device_id name thr target)
  with assms show ?thesis
    by (force simp: register_device_snd)
next
  case (AddMeter e device_id meter_type capacity name)
  from add_meter_shape[of s e device_id meter_type capacity name] assms AddMeter
  show ?thesis by auto
next
  case (LogPower e e2 meter_id voltage current charge_pct)
  from log_power_snd[of s e e2 meter_id voltage current charge_pct] assms LogPower
  show ?thesis by auto
next
  case (TriggerEvent e device_id event_type val nt)
  from trigger_event_shape[of s e device_id event_type val nt] assms TriggerEvent
  show ?thesis by auto
qed

lemma run_fk: "\<forall>m\<in>set (power_meters (run ops)). m_device_id m \<in> set (map d_id (devices (run ops)))"
proof (induction ops rule: rev_induct)
  case Nil
  show ?case by (simp add: run_Nil init_db_def)
next
  case (snoc x xs)
  then show ?case unfolding run_snoc by (rule step_fk)
qed

lemma step_pct_ok:
  assumes "pct_ok s"
  shows "pct_ok (step s x)"
proof (cases x)
  case (RegisterDevice device_id name thr target)
  with assms show ?thesis
    by (simp add: register_device_snd pct_ok_def)
next
  case (AddMeter e device_id meter_type capacity name)
  from add_meter_shape[of s e device_id meter_type capacity name] assms AddMeter
  show ?thesis by (auto simp: pct_ok_def)
next
  case (LogPower e e2 meter_id voltage current charge_pct)
  from log_power_snd[of s e e2 meter_id voltage current charge_pct] assms LogPower
  show ?thesis
    using clamp_pct_range
    by (auto simp: pct_ok_def list_all_iff live_update_def reading_row_def)
next
  case (TriggerEvent e device_id event_type val nt)
  from trigger_event_shape[of s e device_id event_type val nt] assms TriggerEvent
  show ?thesis by (auto simp: pct_ok_def)
qed

lemma run_pct_ok: "pct_ok (run ops)"
proof (induction ops rule: rev_induct)
  case Nil
  show ?case by (simp add: run_Nil init_db_def pct_ok_def)
next
  case (snoc x xs)
  then show ?case unfolding run_snoc by (rule step_pct_ok)
qed

subsection \<open>Rounding\<close>

lemma py_round_multiple: "\<exists>k::int. py_round x n = of_int k / 10 ^ n"
  unfolding py_round_def Let_def by blast

lemma py_round_near: "\<bar>py_round x n - x\<bar> \<le> 1 / (2 * 10 ^ n)"
proof -
  define sc where "sc = x * 10 ^ n"
  define lo where "lo = \<lfloor>sc\<rfloor>"
  define q where "q = (if sc - of_int lo < 1 / 2 then lo
               else if 1 / 2 < sc - of_int lo then lo + 1
               else if even lo then lo else lo + 1)"
  have pos: "(0::real) < 10 ^ n" by simp
  have r: "py_round x n = of_int q / 10 ^ n"
    by (simp add: py_round_def Let_def sc_def lo_def q_def)
  have lo1: "of_int lo \<le> sc" and lo2: "sc < of_int lo + 1"
    unfolding lo_def by linarith+
  have close: "\<bar>of_int q - sc\<bar> \<le> 1 / 2"
    using lo1 lo2 unfolding q_def by (auto simp: abs_real_def)
  have "py_round x n - x = (of_int q - sc) / 10 ^ n"
    using pos by (simp add: r sc_def diff_divide_distrib)
  then have "\<bar>py_round x n - x\<bar> = \<bar>of_int q - sc\<bar> / 10 ^ n"
    by (simp add: abs_divide)
  also have "\<dots> \<le> (1 / 2) / 10 ^ n"
    by (rule divide_right_mono[OF close]) simp
  finally show ?thesis by simp
qed

subsection \<open>The fixtures\<close>

lemma get_meter_logged:
  assumes "get_meter s meter_id = Inr m"
  shows "get_meter ((logged s e meter_id voltage current pct)\<lparr>power_events := evs\<rparr>) meter_id =
           Inr (m\<lparr>m_voltage := voltage, m_current_draw := current, m_charge_pct := pct\<rparr>)"
  using assms by (auto simp: get_meter_def find_live_update_same split: option.splits)

lemma fixture_db:
  "run fixture_ops =
     \<lparr>devices = [\<lparr>d_id = ''dev-001'', d_name = ''Edge Node'', d_shutdown_threshold = 3,
                   d_target_wh = None\<rparr>],
      power_meters = [\<lparr>m_id = ''m1'', m_device_id = ''dev-001'', m_type = BATTERY,
                       m_voltage = 0, m_current_draw = 0, m_capacity_wh = 50,
                       m_charge_pct = 100, m_name = Some ''Main Battery''\<rparr>],
      power_readings = [], power_events = []\<rparr>"
  by (simp add: fixture_ops_def run_def init_db_def register_device_snd add_meter_def
        get_device_def db_conn_def MeterType_of_def insert_meter_def get_meter_def Let_def)

lemma fixture_meter:
  "get_meter (run fixture_ops) ''m1'' =
     Inr \<lparr>m_id = ''m1'', m_device_id = ''dev-001'', m_type = BATTERY,
          m_voltage = 0, m_current_draw = 0, m_capacity_wh = 50,
          m_charge_pct = 100, m_name = Some ''Main Battery''\<rparr>"
  by (simp add: fixture_db get_meter_def)

lemma fixture_log_80:
  "log_power (run fixture_ops) \<lparr>env_now = 2, env_uuid = ''r1''\<rparr>
       \<lparr>env_now = 3, env_uuid = ''e1''\<rparr> ''m1'' 12 2 (Some p) =
     (Inr (reading_row \<lparr>env_now = 2, env_uuid = ''r1''\<rparr> ''m1'' 12 2 (max 0 (min 100 p))),
      (logged (run fixture_ops) \<lparr>env_now = 2, env_uuid = ''r1''\<rparr> ''m1'' 12 2 (max 0 (min 100 p)))
        \<lparr>power_events := auto_events \<lparr>env_now = 3, env_uuid = ''e1''\<rparr>
            \<lparr>m_id = ''m1'', m_device_id = ''dev-001'', m_type = BATTERY,
             m_voltage = 0, m_current_draw = 0, m_capacity_wh = 50,
             m_charge_pct = 100, m_name = Some ''Main Battery''\<rparr> (max 0 (min 100 p))\<rparr>)"
  using log_power_ok[OF fixture_meter, of "\<lparr>env_now = 2, env_uuid = ''r1''\<rparr>"
      "\<lparr>env_now = 3, env_uuid = ''e1''\<rparr>" 12 2 "Some p"]
  by (simp add: clamp_pct_def fixture_db)

subsection \<open>Readings and events are append-only\<close>

lemma step_keeps_rows:
  "set (power_readings s) \<subseteq> set (power_readings (step s x)) \<and>
   set (power_events s) \<subseteq> set (power_events (step s x))"
proof (cases x)
  case (RegisterDevice device_id name thr target)
  then show ?thesis by (simp add: register_device_snd)
next
  case (AddMeter e device_id meter_type capacity name)
  from add_meter_shape[of s e device_id meter_type capacity name] AddMeter
  show ?thesis by auto
next
  case (LogPower e e2 meter_id voltage current charge_pct)
  from log_power_snd[of s e e2 meter_id voltage current charge_pct] LogPower
  show ?thesis by auto
next
  case (TriggerEvent e device_id event_type val nt)
  from trigger_event_shape[of s e device_id event_type val nt] TriggerEvent
  show ?thesis by auto
qed

lemma foldl_step_keeps_rows:
  "set (power_readings s) \<subseteq> set (power_readings (foldl step s ops)) \<and>
   set (power_events s) \<subseteq> set (power_events (foldl step s ops))"
proof (induction ops arbitrary: s)
  case Nil
  show ?case by simp
next
  case (Cons x xs)
  from step_keeps_rows[of s x] Cons[of "step s x"] show ?case by auto
qed

subsection \<open>A device with many events\<close>

lemma burst_fresh: "replicate (Suc n) c \<notin> set (map e_id (map burst_event [0..<n]))"
proof
  assume "replicate (Suc n) c \<in> set (map e_id (map burst_event [0..<n]))"
  then obtain k where "k < n" "replicate (Suc n) c = replicate (Suc k) (CHR ''e'')"
    by (auto simp: burst_event_def)
  then have "length (replicate (Suc n) c) = length (replicate (Suc k) (CHR ''e''))" by simp
  with \<open>k < n\<close> show False by simp
qed

lemma run_burst:
  "run (burst_ops n) =
     \<lparr>devices = [\<lparr>d_id = ''dev-001'', d_name = ''Edge Node'', d_shutdown_threshold = 3,
                   d_target_wh = None\<rparr>],
      power_meters = [], power_readings = [], power_events = map burst_event [0..<n]\<rparr>"
proof (induction n)
  case 0
  show ?case
    by (simp add: burst_ops_def run_def init_db_def register_device_snd)
next
  case (Suc n)
  have "run (burst_ops (Suc n)) = step (run (burst_ops n)) (burst_op n)"
    by (simp add: burst_ops_def run_def)
  also have "\<dots> = snd (trigger_event (run (burst_ops n))
       \<lparr>env_now = int n, env_uuid = replicate (Suc n) (CHR ''e'')\<rparr> ''dev-001'' ''restore'' 0 None)"
    by (simp add: burst_op_def)
  also have "\<dots> = (run (burst_ops n))\<lparr>power_events := power_events (run (burst_ops n)) @ [burst_event n]\<rparr>"
    using burst_fresh[of n "CHR ''e''"]
    by (subst trigger_event_ok[where ty = RESTORE])
       (simp_all add: Suc PowerEventType_of_def burst_event_def)
  finally show ?case by (simp add: Suc)
qed

lemma device_events_burst: "device_events (run (burst_ops n)) ''dev-001'' = map burst_event [0..<n]"
proof -
  have "filter (\<lambda>ev. e_device_id ev = ''dev-001'') (map burst_event xs) = map burst_event xs" for xs
    by (induction xs) (simp_all add: burst_event_def)
  then show ?thesis by (simp add: device_events_def run_burst)
qed

subsection \<open>list_meters, estimate_runtime and power_budget_check\<close>

lemma empty_id_db:
  "run empty_id_ops =
     \<lparr>devices = [\<lparr>d_id = '''', d_name = ''Hub'', d_shutdown_threshold = 3, d_target_wh = None\<rparr>,
                  \<lparr>d_id = ''dev-001'', d_name = ''Edge Node'', d_shutdown_threshold = 3,
                   d_target_wh = None\<rparr>],
      power_meters = [\<lparr>m_id = ''m1'', m_device_id = ''dev-001'', m_type = BATTERY,
                       m_voltage = 12, m_current_draw = 2, m_capacity_wh = 50,
                       m_charge_pct = 80, m_name = Some ''Main Battery''\<rparr>],
      power_readings = [\<lparr>r_id = ''r1'', r_meter_id = ''m1'', r_voltage = 12,
                         r_current_draw = 2, r_wattage = 24, r_charge_pct = 80,
                         r_timestamp = 2\<rparr>],
      power_events = []\<rparr>"
  by (simp add: empty_id_ops_def run_def init_db_def register_device_snd add_meter_def
        get_device_def db_conn_def MeterType_of_def insert_meter_def get_meter_def Let_def
        log_power_def insert_reading_def update_meter_def py_round_def
        CRITICAL_BATTERY_THRESHOLD_def LOW_BATTERY_THRESHOLD_def)

lemma list_meters_nonempty:
  "device_id \<noteq> [] \<Longrightarrow> list_meters s (Some device_id) = device_meters s device_id"
  by (simp add: list_meters_def device_meters_def)

lemma power_budget_check_lookup:
  "power_budget_check s device_ids d =
     (if d \<in> set device_ids then Some (budget_entry s d) else None)"
proof -
  have "fold (\<lambda>dev_id results. results(dev_id \<mapsto> budget_entry s dev_id)) ids m d =
          (if d \<in> set ids then Some (budget_entry s d) else m d)" for ids m
    by (induction ids arbitrary: m) auto
  then show ?thesis by (simp add: power_budget_check_def)
qed

subsection \<open>get_history and get_events\<close>

lemma window_start_eq:
  "window_start now hours =
     (if - 999999999 \<le> hours div 24 \<and> hours div 24 \<le> 999999999
         \<and> datetime_min \<le> now - hours_us hours \<and> now - hours_us hours \<le> datetime_max
      then Inr (now - hours_us hours) else Inl OverflowError)"
  by (simp add: window_start_def timedelta_hours_def datetime_sub_def)

lemma get_history_Inr:
  "window_start now hours = Inr since \<Longrightarrow>
   get_history s now meter_id hours = Inr (select_readings s meter_id since)"
  by (simp add: get_history_def)

lemma get_history_Inl:
  "window_start now hours = Inl err \<Longrightarrow> get_history s now meter_id hours = Inl err"
  by (simp add: get_history_def)

lemma select_readings_set:
  "set (select_readings s meter_id since) =
     {r \<in> set (power_readings s). r_meter_id r = meter_id \<and> since \<le> r_timestamp r}"
  by (auto simp: select_readings_def)

lemma select_readings_sorted: "sorted (map r_timestamp (select_readings s meter_id since))"
  by (simp add: select_readings_def)

lemma get_events_eq:
  "get_events s device_id limit =
     (if limit < - (2 ^ 63) \<or> 2 ^ 63 \<le> limit then Inl OverflowError
      else Inr (if limit < 0 then rev (sort_key e_timestamp (device_events s device_id))
                else take (nat limit) (rev (sort_key e_timestamp (device_events s device_id)))))"
  by (simp add: get_events_def select_events_def device_events_def Let_def)

lemma take_rev_sorted:
  assumes "sorted (map f ys)"
  shows "sorted (rev (map f (take n (rev ys))))"
proof -
  have "rev (map f (take n (rev ys))) = drop (length ys - n) (map f ys)"
    by (simp add: take_rev rev_map drop_map)
  with assms show ?thesis by (simp add: sorted_wrt_drop)
qed

lemma get_events_sorted:
  assumes "get_events s device_id limit = Inr evs"
  shows "sorted (rev (map e_timestamp evs))"
proof -
  define ys where "ys = sort_key e_timestamp (device_events s device_id)"
  have srt: "sorted (map e_timestamp ys)" by (simp add: ys_def)
  from assms have "evs = rev ys \<or> evs = take (nat limit) (rev ys)"
    by (auto simp: get_events_eq ys_def split: if_splits)
  then show ?thesis
    using srt take_rev_sorted[OF srt, of "nat limit"] by (auto simp: rev_map)
qed

lemma get_events_all:
  assumes "get_events s device_id limit = Inr evs"
    and "limit < 0 \<or> int (length (device_events s device_id)) \<le> limit"
  shows "evs = rev (sort_key e_timestamp (device_events s device_id))"
  using assms by (auto simp: get_events_eq split: if_splits)

lemma fixture_logged_rows:
  "power_readings fixture_logged =
     [\<lparr>r_id = ''r1'', r_meter_id = ''m1'', r_voltage = 12, r_current_draw = 2,
       r_wattage = 24, r_charge_pct = 10, r_timestamp = 2\<rparr>]"
  "power_events fixture_logged =
     [\<lparr>e_id = ''e1'', e_device_id = ''dev-001'', e_type = DISCHARGE, e_value = 10,
       e_timestamp = 3, e_note = None\<rparr>]"
  unfolding fixture_logged_def fixture_log_80
  by (simp_all add: fixture_db reading_row_def py_round_def auto_events_def event_row_def)

subsection \<open>export_report\<close>

lemma collect_Inr:
  "(\<And>x. x \<in> set xs \<Longrightarrow> \<exists>y. f x = Inr y) \<Longrightarrow> \<exists>ys. collect f xs = Inr ys"
proof (induction xs)
  case Nil
  show ?case by simp
next
  case (Cons x xs)
  then obtain y ys where "f x = Inr y" "collect f xs = Inr ys"
    by (metis list.set_intros(1,2))
  then show ?case by simp
qed

lemma collect_Inl:
  "xs \<noteq> [] \<Longrightarrow> (\<And>x. x \<in> set xs \<Longrightarrow> f x = Inl err) \<Longrightarrow> collect f xs = Inl err"
  by (cases xs) simp_all

lemma meter_report_Inr:
  "window_start now (days * 24) = Inr since \<Longrightarrow> \<exists>y. meter_report s now days m = Inr y"
  by (simp add: meter_report_def get_history_def)

lemma meter_report_Inl:
  "window_start now (days * 24) = Inl err \<Longrightarrow> meter_report s now days m = Inl err"
  by (simp add: meter_report_def get_history_def)

lemma get_events_200:
  "get_events s device_id 200 = Inr (take 200 (rev (sort_key e_timestamp (device_events s device_id))))"
  by (simp add: get_events_eq)

lemma export_report_Inl:
  "device_id \<notin> set (map d_id (devices s)) \<Longrightarrow>
   export_report s now device_id days = Inl (DeviceNotFound device_id)"
  by (simp add: export_report_def get_device_Inl)

lemma export_report_overflow:
  assumes "device_id \<in> set (map d_id (devices s))"
    and "list_meters s (Some device_id) \<noteq> []"
    and "window_start now (days * 24) = Inl err"
  shows "export_report s now device_id days = Inl err"
proof -
  from get_device_Inr[OF assms(1)] obtain d where d: "get_device s device_id = Inr d" by blast
  have "collect (meter_report s now days) (list_meters s (Some device_id)) = Inl err"
    by (rule collect_Inl[OF assms(2)]) (rule meter_report_Inl[OF assms(3)])
  with d show ?thesis by (simp add: export_report_def Let_def)
qed

lemma export_report_Inr:
  assumes "device_id \<in> set (map d_id (devices s))"
    and "list_meters s (Some device_id) = [] \<or> window_start now (days * 24) = Inr since"
  shows "\<exists>rep. export_report s now device_id days = Inr rep
           \<and> rp_device_id rep = device_id
           \<and> rp_event_count rep = min 200 (length (device_events s device_id))
           \<and> rp_events rep = take 20 (rev (sort_key e_timestamp (device_events s device_id)))"
proof -
  from get_device_Inr[OF assms(1)] obtain d where d: "get_device s device_id = Inr d" by blast
  have "\<exists>ys. collect (meter_report s now days) (list_meters s (Some device_id)) = Inr ys"
  proof (rule collect_Inr)
    fix x assume "x \<in> set (list_meters s (Some device_id))"
    with assms(2) have "window_start now (days * 24) = Inr since" by auto
    then show "\<exists>y. meter_report s now days x = Inr y" by (rule meter_report_Inr)
  qed
  then obtain ys where "collect (meter_report s now days) (list_meters s (Some device_id)) = Inr ys"
    by blast
  with d show ?thesis
    by (simp add: export_report_def Let_def get_events_200 min_def)
qed

lemma export_report_InrD:
  assumes "export_report s now device_id days = Inr rep"
  shows "rp_event_count rep = min 200 (length (device_events s device_id))
           \<and> rp_events rep = take 20 (rev (sort_key e_timestamp (device_events s device_id)))"
  using assms
  by (auto simp: export_report_def Let_def get_events_200 min_def split: sum.splits)

subsection \<open>Storage failures\<close>

lemma db_conn_io_False: "db_conn_io False = db_conn"
  by (intro ext) (simp add: db_conn_io_def)

lemma get_device_io_False: "get_device_io False = get_device"
  by (intro ext) (simp add: get_device_io_def)

lemma get_meter_io_False: "get_meter_io False = get_meter"
  by (intro ext) (simp add: get_meter_io_def)

lemma register_device_io_none:
  "register_device_io (\<lambda>k. False) s device_id name thr target =
     register_device s device_id name thr target"
  unfolding register_device_io_def register_device_def db_conn_io_False get_device_io_False ..

lemma add_meter_io_none:
  "add_meter_io (\<lambda>k. False) s e device_id meter_type capacity_wh name =
     add_meter s e device_id meter_type capacity_wh name"
  unfolding add_meter_io_def add_meter_def db_conn_io_False get_device_io_False
    get_meter_io_False ..

lemma trigger_event_io_none:
  "trigger_event_io (\<lambda>k. False) s e device_id event_type val nt =
     trigger_event s e device_id event_type val nt"
  unfolding trigger_event_io_def trigger_event_def db_conn_io_False get_device_io_False ..

lemma log_power_io_none:
  "log_power_io (\<lambda>k. False) s e e2 meter_id voltage current charge_pct =
     log_power s e e2 meter_id voltage current charge_pct"
  unfolding log_power_io_def log_power_def db_conn_io_False get_meter_io_False
    trigger_event_io_none ..

lemma db_conn_io_rollback: "db_conn_io fault body s = (Inl err, s') \<Longrightarrow> s' = s"
  by (auto simp: db_conn_io_def db_conn_def split: if_splits sum.splits)

lemma register_device_io_snd:
  "snd (register_device_io flt s device_id name thr target) = s \<or>
   snd (register_device_io flt s device_id name thr target) =
     s\<lparr>devices := filter (\<lambda>x. d_id x \<noteq> device_id) (devices s) @
        [\<lparr>d_id = device_id, d_name = name, d_shutdown_threshold = thr, d_target_wh = target\<rparr>]\<rparr>"
  by (simp add: register_device_io_def db_conn_io_def db_conn_def insert_or_replace_device_def)

lemma add_meter_io_snd:
  "snd (add_meter_io flt s e device_id meter_type capacity_wh name) = s \<or>
   (\<exists>ty. snd (add_meter_io flt s e device_id meter_type capacity_wh name) =
        s\<lparr>power_meters := power_meters s @
             [\<lparr>m_id = env_uuid e, m_device_id = device_id, m_type = ty,
               m_voltage = 0, m_current_draw = 0, m_capacity_wh = capacity_wh,
               m_charge_pct = 100, m_name = name\<rparr>]\<rparr>)"
  by (auto simp: add_meter_io_def db_conn_io_def db_conn_def get_device_io_def insert_meter_def
        Let_def split: sum.splits option.splits if_splits)

lemma trigger_event_io_shape:
  "(\<exists>err. trigger_event_io flt s e device_id t v n = (Inl err, s)) \<or>
   (\<exists>ty. PowerEventType_of t = Some ty \<and>
         trigger_event_io flt s e device_id t v n =
           (Inr \<lparr>e_id = env_uuid e, e_device_id = device_id, e_type = ty, e_value = v,
                 e_timestamp = env_now e, e_note = n\<rparr>,
            s\<lparr>power_events := power_events s @
                 [\<lparr>e_id = env_uuid e, e_device_id = device_id, e_type = ty, e_value = v,
                   e_timestamp = env_now e, e_note = n\<rparr>]\<rparr>))"
  by (auto simp: trigger_event_io_def db_conn_io_def db_conn_def get_device_io_def
        insert_event_def Let_def split: sum.splits option.splits if_splits)

lemma log_power_io_early:
  assumes "flt 0 \<or> (\<exists>err. get_meter s meter_id = Inl err) \<or> flt 1
           \<or> env_uuid e \<in> set (map r_id (power_readings s))"
  shows "\<exists>err. log_power_io flt s e e2 meter_id voltage current charge_pct = (Inl err, s)"
  using assms
  by (auto simp: log_power_io_def get_meter_io_def db_conn_io_def db_conn_def
        insert_reading_def Let_def split: sum.splits)

lemma log_power_io_block:
  assumes "\<not> flt 0" and "\<not> flt 1" and "get_meter s meter_id = Inr m"
    and "env_uuid e \<notin> set (map r_id (power_readings s))"
  shows "log_power_io flt s e e2 meter_id voltage current charge_pct =
     (let pct = clamp_pct m charge_pct;
          reading = reading_row e meter_id voltage current pct;
          s1 = logged s e meter_id voltage current pct
      in if m_type m = BATTERY \<and> pct \<le> 5 then
           (case trigger_event_io (\<lambda>k. flt (k + 2)) s1 e2 (m_device_id m)
                   ''low_battery'' pct None of
              (Inl err, s2) \<Rightarrow> (Inl err, s2)
            | (Inr _, s2) \<Rightarrow> (Inr reading, s2))
         else if m_type m = BATTERY \<and> pct \<le> 20 then
           (case trigger_event_io (\<lambda>k. flt (k + 2)) s1 e2 (m_device_id m)
                   ''discharge'' pct None of
              (Inl err, s2) \<Rightarrow> (Inl err, s2)
            | (Inr _, s2) \<Rightarrow> (Inr reading, s2))
         else (Inr reading, s1))"
proof -
  from get_meter_InrD[OF assms(3)] have "meter_id \<in> set (map m_id (power_meters s))"
    by force
  with assms show ?thesis
    by (simp add: log_power_io_def get_meter_io_def db_conn_io_def db_conn_def
          insert_reading_def update_meter_def Let_def
          clamp_pct_def reading_row_def logged_def live_update_def
          CRITICAL_BATTERY_THRESHOLD_def LOW_BATTERY_THRESHOLD_def cong: if_cong)
qed

lemma log_power_io_result:
  assumes "\<not> flt 0" and "\<not> flt 1" and "get_meter s meter_id = Inr m"
    and "env_uuid e \<notin> set (map r_id (power_readings s))"
  shows "log_power_io flt s e e2 meter_id voltage current charge_pct =
           (Inr (reading_row e meter_id voltage current (clamp_pct m charge_pct)),
            (logged s e meter_id voltage current (clamp_pct m charge_pct))
              \<lparr>power_events := power_events s @ auto_events e2 m (clamp_pct m charge_pct)\<rparr>)
       \<or> (\<exists>err. auto_events e2 m (clamp_pct m charge_pct) \<noteq> [] \<and>
             log_power_io flt s e e2 meter_id voltage current charge_pct =
               (Inl err, logged s e meter_id voltage current (clamp_pct m charge_pct)))"
proof -
  define pct where "pct = clamp_pct m charge_pct"
  define s1 where "s1 = logged s e meter_id voltage current pct"
  have ev: "power_events s1 = power_events s" by (simp add: s1_def)
  then have nil: "s1\<lparr>power_events := power_events s\<rparr> = s1" by simp
  note blk = log_power_io_block[OF assms, of e2 voltage current charge_pct,
      unfolded Let_def, folded pct_def, folded s1_def]
  show ?thesis
  proof (cases "auto_events e2 m pct = []")
    case True
    then have c: "\<not> (m_type m = BATTERY \<and> pct \<le> 5)" "\<not> (m_type m = BATTERY \<and> pct \<le> 20)"
      by (auto simp: auto_events_def split: if_splits)
    have "log_power_io flt s e e2 meter_id voltage current charge_pct =
            (Inr (reading_row e meter_id voltage current pct), s1)"
      unfolding blk if_not_P[OF c(1)] if_not_P[OF c(2)] ..
    with True nil show ?thesis
      by (simp add: pct_def[symmetric] s1_def[symmetric])
  next
    case False
    then obtain t ty where
      sel: "log_power_io flt s e e2 meter_id voltage current charge_pct =
              (case trigger_event_io (\<lambda>k. flt (k + 2)) s1 e2 (m_device_id m) t pct None of
                 (Inl err, s2) \<Rightarrow> (Inl err, s2)
               | (Inr _, s2) \<Rightarrow> (Inr (reading_row e meter_id voltage current pct), s2))"
      and ty: "PowerEventType_of t = Some ty"
      and au: "auto_events e2 m pct = [event_row e2 (m_device_id m) ty pct]"
    proof (cases "m_type m = BATTERY \<and> pct \<le> 5")
      case True
      with blk have "log_power_io flt s e e2 meter_id voltage current charge_pct =
              (case trigger_event_io (\<lambda>k. flt (k + 2)) s1 e2 (m_device_id m)
                      ''low_battery'' pct None of
                 (Inl err, s2) \<Rightarrow> (Inl err, s2)
               | (Inr _, s2) \<Rightarrow> (Inr (reading_row e meter_id voltage current pct), s2))"
        by simp
      moreover have "PowerEventType_of ''low_battery'' = Some LOW_BATTERY"
        by (simp add: PowerEventType_of_def)
      moreover from True have "auto_events e2 m pct = [event_row e2 (m_device_id m) LOW_BATTERY pct]"
        by (simp add: auto_events_def)
      ultimately show ?thesis by (rule that)
    next
      case c: False
      with False have l: "m_type m = BATTERY \<and> pct \<le> 20"
        by (auto simp: auto_events_def split: if_splits)
      have "log_power_io flt s e e2 meter_id voltage current charge_pct =
              (case trigger_event_io (\<lambda>k. flt (k + 2)) s1 e2 (m_device_id m)
                      ''discharge'' pct None of
                 (Inl err, s2) \<Rightarrow> (Inl err, s2)
               | (Inr _, s2) \<Rightarrow> (Inr (reading_row e meter_id voltage current pct), s2))"
        unfolding blk if_not_P[OF c] if_P[OF l] ..
      moreover have "PowerEventType_of ''discharge'' = Some DISCHARGE"
        by (simp add: PowerEventType_of_def)
      moreover from c l have "auto_events e2 m pct = [event_row e2 (m_device_id m) DISCHARGE pct]"
        by (auto simp add: auto_events_def)
      ultimately show ?thesis by (rule that)
    qed
    from trigger_event_io_shape[of "\<lambda>k. flt (k + 2)" s1 e2 "m_device_id m" t pct None]
    show ?thesis
    proof (elim disjE exE conjE)
      fix err
      assume "trigger_event_io (\<lambda>k. flt (k + 2)) s1 e2 (m_device_id m) t pct None = (Inl err, s1)"
      with sel au show ?thesis
        by (auto simp add: pct_def[symmetric] s1_def[symmetric])
    next
      fix ty'
      assume ty': "PowerEventType_of t = Some ty'"
        and tr: "trigger_event_io (\<lambda>k. flt (k + 2)) s1 e2 (m_device_id m) t pct None =
           (Inr \<lparr>e_id = env_uuid e2, e_device_id = m_device_id m, e_type = ty', e_value = pct,
                 e_timestamp = env_now e2, e_note = None\<rparr>,
            s1\<lparr>power_events := power_events s1 @
                 [\<lparr>e_id = env_uuid e2, e_device_id = m_device_id m, e_type = ty', e_value = pct,
                   e_timestamp = env_now e2, e_note = None\<rparr>]\<rparr>)"
      from ty ty' have "ty' = ty" by simp
      with sel au tr ev show ?thesis
        by (simp add: pct_def[symmetric] s1_def[symmetric] event_row_def)
    qed
  qed
qed

lemma log_power_io_cases:
  "(\<exists>err. log_power_io flt s e e2 meter_id voltage current charge_pct = (Inl err, s))
   \<or> (\<exists>m. get_meter s meter_id = Inr m \<and>
        (log_power_io flt s e e2 meter_id voltage current charge_pct =
           (Inr (reading_row e meter_id voltage current (clamp_pct m charge_pct)),
            (logged s e meter_id voltage current (clamp_pct m charge_pct))
              \<lparr>power_events := power_events s @ auto_events e2 m (clamp_pct m charge_pct)\<rparr>)
         \<or> (\<exists>err. auto_events e2 m (clamp_pct m charge_pct) \<noteq> [] \<and>
               log_power_io flt s e e2 meter_id voltage current charge_pct =
                 (Inl err, logged s e meter_id voltage current (clamp_pct m charge_pct)))))"
proof (cases "flt 0 \<or> (\<exists>err. get_meter s meter_id = Inl err) \<or> flt 1
           \<or> env_uuid e \<in> set (map r_id (power_readings s))")
  case True
  from log_power_io_early[OF this] show ?thesis by blast
next
  case False
  then obtain m where m: "get_meter s meter_id = Inr m"
    by (cases "get_meter s meter_id") auto
  from False have "\<not> flt 0" "\<not> flt 1" "env_uuid e \<notin> set (map r_id (power_readings s))"
    by blast+
  from log_power_io_result[OF this(1,2) m this(3), of e2 voltage current charge_pct] m
  show ?thesis by blast
qed

lemma db_conn_io_cases:
  "(\<exists>err. db_conn_io fault body s = (Inl err, s)) \<or>
   (\<exists>a s'. body s = Inr (a, s') \<and> db_conn_io fault body s = (Inr a, s'))"
  by (cases "body s") (auto simp: db_conn_io_def db_conn_def)

section \<open>The claims\<close>

text \<open>
  Claim C1. In a store reached by any sequence of operations, a \<^verbatim>\<open>log_power\<close> call on
  an existing meter with fresh row ids returns its Reading and appends exactly that
  Reading. With \<open>pct\<close> the clamped charge: on a battery meter \<open>pct \<le> 5\<close> appends exactly
  one \<^verbatim>\<open>low_battery\<close> Event of value \<open>pct\<close>, \<open>5 < pct \<le> 20\<close> exactly one
  \<^verbatim>\<open>discharge\<close> Event of value \<open>pct\<close>, and \<open>pct > 20\<close> none; on a meter of any other
  type no Event is appended. So a call appends at most one Event besides its Reading.
\<close>

theorem log_power_auto_event:
  assumes "get_meter (run ops) meter_id = Inr m"
    and "env_uuid e \<notin> set (map r_id (power_readings (run ops)))"
    and "env_uuid e2 \<notin> set (map e_id (power_events (run ops)))"
  shows "\<exists>r s'. log_power (run ops) e e2 meter_id voltage current charge_pct = (Inr r, s')
     \<and> power_readings s' = power_readings (run ops) @ [r]
     \<and> (let pct = max 0 (min 100 (case charge_pct of Some p \<Rightarrow> p | None \<Rightarrow> m_charge_pct m)) in
        r_charge_pct r = pct \<and>
        power_events s' = power_events (run ops) @
          (if m_type m = BATTERY \<and> pct \<le> 5 then
             [\<lparr>e_id = env_uuid e2, e_device_id = m_device_id m, e_type = LOW_BATTERY,
               e_value = pct, e_timestamp = env_now e2, e_note = None\<rparr>]
           else if m_type m = BATTERY \<and> 5 < pct \<and> pct \<le> 20 then
             [\<lparr>e_id = env_uuid e2, e_device_id = m_device_id m, e_type = DISCHARGE,
               e_value = pct, e_timestamp = env_now e2, e_note = None\<rparr>]
           else []))"
proof -
  from get_meter_InrD[OF assms(1)] run_fk[of ops]
  have dev: "m_device_id m \<in> set (map d_id (devices (run ops)))" by blast
  show ?thesis
    unfolding log_power_ok[OF assms(1,2) dev assms(3)]
    by (auto simp: Let_def auto_events_def event_row_def reading_row_def clamp_pct_def)
qed

text \<open>
  C1 on the battery meter of the fixtures at the charges 4, 10 and 80 of the tests.
\<close>

theorem log_power_auto_event_witness:
  "(\<exists>r s'. log_power (run fixture_ops) \<lparr>env_now = 2, env_uuid = ''r1''\<rparr>
              \<lparr>env_now = 3, env_uuid = ''e1''\<rparr> ''m1'' (16 / 5) (1 / 2) (Some 4) = (Inr r, s')
      \<and> power_readings s' = [r] \<and> r_charge_pct r = 4
      \<and> power_events s' = [\<lparr>e_id = ''e1'', e_device_id = ''dev-001'', e_type = LOW_BATTERY,
                              e_value = 4, e_timestamp = 3, e_note = None\<rparr>])
   \<and> (\<exists>r s'. log_power (run fixture_ops) \<lparr>env_now = 2, env_uuid = ''r1''\<rparr>
              \<lparr>env_now = 3, env_uuid = ''e1''\<rparr> ''m1'' (37 / 10) (1 / 2) (Some 10) = (Inr r, s')
      \<and> power_readings s' = [r] \<and> r_charge_pct r = 10
      \<and> power_events s' = [\<lparr>e_id = ''e1'', e_device_id = ''dev-001'', e_type = DISCHARGE,
                              e_value = 10, e_timestamp = 3, e_note = None\<rparr>])
   \<and> (\<exists>r s'. log_power (run fixture_ops) \<lparr>env_now = 2, env_uuid = ''r1''\<rparr>
              \<lparr>env_now = 3, env_uuid = ''e1''\<rparr> ''m1'' 12 2 (Some 80) = (Inr r, s')
      \<and> power_readings s' = [r] \<and> r_charge_pct r = 80
      \<and> power_events s' = [])"
proof -
  have h2: "env_uuid \<lparr>env_now = 2, env_uuid = ''r1''\<rparr> \<notin> set (map r_id (power_readings (run fixture_ops)))"
    by (simp add: fixture_db)
  have h3: "env_uuid \<lparr>env_now = 3, env_uuid = ''e1''\<rparr> \<notin> set (map e_id (power_events (run fixture_ops)))"
    by (simp add: fixture_db)
  show ?thesis
    using log_power_auto_event [OF fixture_meter h2 h3, of "16 / 5" "1 / 2" "Some 4"]
      log_power_auto_event [OF fixture_meter h2 h3, of "37 / 10" "1 / 2" "Some 10"]
      log_power_auto_event [OF fixture_meter h2 h3, of 12 2 "Some 80"]
    by (simp add: fixture_db)
qed

text \<open>
  Claim C2. The state of a meter is decided by the first rule that matches, in this
  order: type solar gives CHARGING; else a charge of at most 5 gives CRITICAL; else a
  charge of at most 20 gives LOW; else a charge of at least 95 gives CHARGING; otherwise
  NORMAL. The state is never UNKNOWN. For a meter that is not solar a charge of 80 is
  NORMAL, 15 is LOW, 4 is CRITICAL and 97 is CHARGING; a solar meter is CHARGING at any
  charge.
\<close>

theorem state_priority:
  "state m =
     (if m_type m = SOLAR then CHARGING
      else if m_charge_pct m \<le> 5 then CRITICAL
      else if m_charge_pct m \<le> 20 then LOW
      else if 95 \<le> m_charge_pct m then CHARGING
      else NORMAL)
   \<and> state m \<noteq> UNKNOWN
   \<and> (m_type m \<noteq> SOLAR \<and> m_charge_pct m = 80 \<longrightarrow> state m = NORMAL)
   \<and> (m_type m \<noteq> SOLAR \<and> m_charge_pct m = 15 \<longrightarrow> state m = LOW)
   \<and> (m_type m \<noteq> SOLAR \<and> m_charge_pct m = 4 \<longrightarrow> state m = CRITICAL)
   \<and> (m_type m \<noteq> SOLAR \<and> m_charge_pct m = 97 \<longrightarrow> state m = CHARGING)
   \<and> (m_type m = SOLAR \<longrightarrow> state m = CHARGING)"
  by (simp add: state_def CRITICAL_BATTERY_THRESHOLD_def LOW_BATTERY_THRESHOLD_def)

text \<open>
  The rules of C2 at the charges the specification lists, and a solar meter at a charge
  of 3.
\<close>

theorem state_priority_witness:
  "state \<lparr>m_id = ''m1'', m_device_id = ''dev-001'', m_type = BATTERY, m_voltage = 12,
          m_current_draw = 1, m_capacity_wh = 50, m_charge_pct = 80, m_name = None\<rparr> = NORMAL
   \<and> state \<lparr>m_id = ''m1'', m_device_id = ''dev-001'', m_type = BATTERY, m_voltage = 10,
          m_current_draw = 1 / 2, m_capacity_wh = 50, m_charge_pct = 15, m_name = None\<rparr> = LOW
   \<and> state \<lparr>m_id = ''m1'', m_device_id = ''dev-001'', m_type = BATTERY, m_voltage = 16 / 5,
          m_current_draw = 1 / 5, m_capacity_wh = 50, m_charge_pct = 4, m_name = None\<rparr> = CRITICAL
   \<and> state \<lparr>m_id = ''m2'', m_device_id = ''dev-001'', m_type = UPS, m_voltage = 12,
          m_current_draw = 1, m_capacity_wh = 50, m_charge_pct = 97, m_name = None\<rparr> = CHARGING
   \<and> state \<lparr>m_id = ''m3'', m_device_id = ''dev-001'', m_type = SOLAR, m_voltage = 0,
          m_current_draw = 0, m_capacity_wh = 0, m_charge_pct = 3, m_name = None\<rparr> = CHARGING"
  using
    state_priority [of "\<lparr>m_id = ''m1'', m_device_id = ''dev-001'', m_type = BATTERY, m_voltage = 12,
          m_current_draw = 1, m_capacity_wh = 50, m_charge_pct = 80, m_name = None\<rparr>"]
    state_priority [of "\<lparr>m_id = ''m1'', m_device_id = ''dev-001'', m_type = BATTERY, m_voltage = 10,
          m_current_draw = 1 / 2, m_capacity_wh = 50, m_charge_pct = 15, m_name = None\<rparr>"]
    state_priority [of "\<lparr>m_id = ''m1'', m_device_id = ''dev-001'', m_type = BATTERY, m_voltage = 16 / 5,
          m_current_draw = 1 / 5, m_capacity_wh = 50, m_charge_pct = 4, m_name = None\<rparr>"]
    state_priority [of "\<lparr>m_id = ''m2'', m_device_id = ''dev-001'', m_type = UPS, m_voltage = 12,
          m_current_draw = 1, m_capacity_wh = 50, m_charge_pct = 97, m_name = None\<rparr>"]
    state_priority [of "\<lparr>m_id = ''m3'', m_device_id = ''dev-001'', m_type = SOLAR, m_voltage = 0,
          m_current_draw = 0, m_capacity_wh = 0, m_charge_pct = 3, m_name = None\<rparr>"]
  by simp

text \<open>
  Claim C3. The meter's derived wattage is \<^verbatim>\<open>round(voltage * current_draw, 4)\<close>: a
  multiple of 0.0001 within 0.00005 of the product. The Reading a successful
  \<^verbatim>\<open>log_power\<close> call returns and stores has wattage \<^verbatim>\<open>round(voltage * current, 4)\<close>,
  and after the call the meter's derived wattage (\<^verbatim>\<open>calculate_wattage\<close>) is that value.
\<close>

theorem wattage_rounded:
  "wattage m = py_round (m_voltage m * m_current_draw m) 4
   \<and> (\<exists>k::int. wattage m = of_int k / 10000)
   \<and> \<bar>wattage m - m_voltage m * m_current_draw m\<bar> \<le> 1 / 20000
   \<and> (log_power s e e2 meter_id voltage current charge_pct = (Inr r, s') \<longrightarrow>
        r_wattage r = py_round (voltage * current) 4
        \<and> power_readings s' = power_readings s @ [r]
        \<and> (\<exists>m'. get_meter s' meter_id = Inr m' \<and> m_voltage m' = voltage
               \<and> m_current_draw m' = current \<and> wattage m' = r_wattage r)
        \<and> calculate_wattage s' meter_id = Inr (r_wattage r))"
proof (intro conjI impI)
  show "wattage m = py_round (m_voltage m * m_current_draw m) 4"
    by (simp add: wattage_def)
  show "\<exists>k::int. wattage m = of_int k / 10000"
    using py_round_multiple[of "m_voltage m * m_current_draw m" 4] by (simp add: wattage_def)
  show "\<bar>wattage m - m_voltage m * m_current_draw m\<bar> \<le> 1 / 20000"
    using py_round_near[of "m_voltage m * m_current_draw m" 4] by (simp add: wattage_def)
next
  assume a: "log_power s e e2 meter_id voltage current charge_pct = (Inr r, s')"
  from log_power_InrD[OF a] obtain m0 where
    gm: "get_meter s meter_id = Inr m0"
    and r: "r = reading_row e meter_id voltage current (clamp_pct m0 charge_pct)"
    and s': "s' = (logged s e meter_id voltage current (clamp_pct m0 charge_pct))
                    \<lparr>power_events := power_events s @ auto_events e2 m0 (clamp_pct m0 charge_pct)\<rparr>"
    by blast
  note g' = get_meter_logged[OF gm, where e = e and voltage = voltage and current = current
      and pct = "clamp_pct m0 charge_pct"
      and evs = "power_events s @ auto_events e2 m0 (clamp_pct m0 charge_pct)", folded s']
  show "r_wattage r = py_round (voltage * current) 4"
    by (simp add: r reading_row_def)
  show "power_readings s' = power_readings s @ [r]"
    by (simp add: s' r)
  show "\<exists>m'. get_meter s' meter_id = Inr m' \<and> m_voltage m' = voltage
               \<and> m_current_draw m' = current \<and> wattage m' = r_wattage r"
    using g' by (simp add: wattage_def r reading_row_def)
  show "calculate_wattage s' meter_id = Inr (r_wattage r)"
    using g' by (simp add: calculate_wattage_def wattage_def r reading_row_def)
qed

text \<open>
  C3 on the fixtures: 12 V at 2 A is logged as 24 W.
\<close>

theorem wattage_rounded_witness:
  "\<exists>r s'. log_power (run fixture_ops) \<lparr>env_now = 2, env_uuid = ''r1''\<rparr>
              \<lparr>env_now = 3, env_uuid = ''e1''\<rparr> ''m1'' 12 2 (Some 90) = (Inr r, s')
      \<and> r_wattage r = 24 \<and> power_readings s' = [r]
      \<and> calculate_wattage s' ''m1'' = Inr 24"
proof -
  obtain r s' where eq: "log_power (run fixture_ops) \<lparr>env_now = 2, env_uuid = ''r1''\<rparr>
              \<lparr>env_now = 3, env_uuid = ''e1''\<rparr> ''m1'' 12 2 (Some 90) = (Inr r, s')"
    using fixture_log_80[of 90] by blast
  have w: "py_round (12 * 2) 4 = 24" by (simp add: py_round_def)
  from wattage_rounded [of "\<lparr>m_id = ''m1'', m_device_id = ''dev-001'', m_type = BATTERY,
          m_voltage = 12, m_current_draw = 2, m_capacity_wh = 50,
          m_charge_pct = 90, m_name = None\<rparr>" "run fixture_ops" "\<lparr>env_now = 2, env_uuid = ''r1''\<rparr>"
        "\<lparr>env_now = 3, env_uuid = ''e1''\<rparr>" "''m1''" 12 2 "Some 90" r s'] eq w
  have "r_wattage r = 24 \<and> power_readings s' = [r] \<and> calculate_wattage s' ''m1'' = Inr 24"
    by (simp add: fixture_db)
  with eq show ?thesis by blast
qed

text \<open>
  Claim C4. For a charge \<open>p\<close> given to \<^verbatim>\<open>log_power\<close>, the Reading returned and stored
  and the meter's charge after the call are \<open>max 0 (min 100 p)\<close>; this holds for the rows
  written whenever the call writes any, also when it raises afterwards. After every
  sequence of operations each meter's and each reading's charge lies in [0, 100].
\<close>

theorem charge_clamped:
  "(log_power s e e2 meter_id voltage current (Some p) = (Inr r, s') \<longrightarrow>
      r_charge_pct r = max 0 (min 100 p)
      \<and> power_readings s' = power_readings s @ [r]
      \<and> (\<exists>m'. get_meter s' meter_id = Inr m' \<and> m_charge_pct m' = max 0 (min 100 p)))
   \<and> (power_readings (snd (log_power s e e2 meter_id voltage current (Some p))) = power_readings s
        \<and> power_meters (snd (log_power s e e2 meter_id voltage current (Some p))) = power_meters s
      \<or> (\<exists>r' m'. power_readings (snd (log_power s e e2 meter_id voltage current (Some p)))
                     = power_readings s @ [r']
             \<and> r_charge_pct r' = max 0 (min 100 p)
             \<and> get_meter (snd (log_power s e e2 meter_id voltage current (Some p))) meter_id = Inr m'
             \<and> m_charge_pct m' = max 0 (min 100 p)))
   \<and> list_all (\<lambda>m. 0 \<le> m_charge_pct m \<and> m_charge_pct m \<le> 100) (power_meters (run ops))
   \<and> list_all (\<lambda>r. 0 \<le> r_charge_pct r \<and> r_charge_pct r \<le> 100) (power_readings (run ops))"
proof (intro conjI impI)
  assume a: "log_power s e e2 meter_id voltage current (Some p) = (Inr r, s')"
  from log_power_InrD[OF a] obtain m0 where
    gm: "get_meter s meter_id = Inr m0"
    and r: "r = reading_row e meter_id voltage current (clamp_pct m0 (Some p))"
    and s': "s' = (logged s e meter_id voltage current (clamp_pct m0 (Some p)))
                    \<lparr>power_events := power_events s @ auto_events e2 m0 (clamp_pct m0 (Some p))\<rparr>"
    by blast
  note g' = get_meter_logged[OF gm, where e = e and voltage = voltage and current = current
      and pct = "clamp_pct m0 (Some p)"
      and evs = "power_events s @ auto_events e2 m0 (clamp_pct m0 (Some p))", folded s']
  show "r_charge_pct r = max 0 (min 100 p)"
    by (simp add: r reading_row_def clamp_pct_def)
  show "power_readings s' = power_readings s @ [r]"
    by (simp add: s' r)
  show "\<exists>m'. get_meter s' meter_id = Inr m' \<and> m_charge_pct m' = max 0 (min 100 p)"
    using g' by (simp add: clamp_pct_def)
next
  let ?s' = "snd (log_power s e e2 meter_id voltage current (Some p))"
  from log_power_snd[of s e e2 meter_id voltage current "Some p"]
  show "power_readings ?s' = power_readings s \<and> power_meters ?s' = power_meters s
      \<or> (\<exists>r' m'. power_readings ?s' = power_readings s @ [r']
             \<and> r_charge_pct r' = max 0 (min 100 p)
             \<and> get_meter ?s' meter_id = Inr m'
             \<and> m_charge_pct m' = max 0 (min 100 p))"
  proof (elim disjE exE conjE)
    assume "?s' = s" then show ?thesis by simp
  next
    fix m0 evs
    assume gm: "get_meter s meter_id = Inr m0"
      and eq: "?s' = (logged s e meter_id voltage current (clamp_pct m0 (Some p)))
                       \<lparr>power_events := power_events s @ evs\<rparr>"
    note g' = get_meter_logged[OF gm, where e = e and voltage = voltage and current = current
      and pct = "clamp_pct m0 (Some p)" and evs = "power_events s @ evs", folded eq]
    have "power_readings ?s' = power_readings s @
            [reading_row e meter_id voltage current (clamp_pct m0 (Some p))]"
      unfolding eq by simp
    moreover have "r_charge_pct (reading_row e meter_id voltage current (clamp_pct m0 (Some p)))
        = max 0 (min 100 p)"
      by (simp add: reading_row_def clamp_pct_def)
    moreover have "m_charge_pct (m0\<lparr>m_voltage := voltage, m_current_draw := current,
        m_charge_pct := clamp_pct m0 (Some p)\<rparr>) = max 0 (min 100 p)"
      by (simp add: clamp_pct_def)
    ultimately show ?thesis using g' by blast
  qed
next
  show "list_all (\<lambda>m. 0 \<le> m_charge_pct m \<and> m_charge_pct m \<le> 100) (power_meters (run ops))"
    using run_pct_ok[of ops] by (simp add: pct_ok_def)
  show "list_all (\<lambda>r. 0 \<le> r_charge_pct r \<and> r_charge_pct r \<le> 100) (power_readings (run ops))"
    using run_pct_ok[of ops] by (simp add: pct_ok_def)
qed

text \<open>
  C4 on the fixtures: a charge of 150 is stored as 100, in the reading and on the meter.
\<close>

theorem charge_clamped_witness:
  "\<exists>r s'. log_power (run fixture_ops) \<lparr>env_now = 2, env_uuid = ''r1''\<rparr>
              \<lparr>env_now = 3, env_uuid = ''e1''\<rparr> ''m1'' 12 2 (Some 150) = (Inr r, s')
      \<and> r_charge_pct r = 100 \<and> power_readings s' = [r]
      \<and> (\<exists>m'. get_meter s' ''m1'' = Inr m' \<and> m_charge_pct m' = 100)"
proof -
  obtain r s' where eq: "log_power (run fixture_ops) \<lparr>env_now = 2, env_uuid = ''r1''\<rparr>
              \<lparr>env_now = 3, env_uuid = ''e1''\<rparr> ''m1'' 12 2 (Some 150) = (Inr r, s')"
    using fixture_log_80[of 150] by blast
  from charge_clamped [of "run fixture_ops" "\<lparr>env_now = 2, env_uuid = ''r1''\<rparr>"
        "\<lparr>env_now = 3, env_uuid = ''e1''\<rparr>" "''m1''" 12 2 150 r s' fixture_ops] eq
  have "r_charge_pct r = 100 \<and> power_readings s' = [r]
      \<and> (\<exists>m'. get_meter s' ''m1'' = Inr m' \<and> m_charge_pct m' = 100)"
    by (simp add: fixture_db)
  with eq show ?thesis by blast
qed

text \<open>
  Claim C5 fails on the code for the device id \<^verbatim>\<open>""\<close>. \<^verbatim>\<open>estimate_runtime\<close> takes the
  device's meters from \<^verbatim>\<open>list_meters(device_id)\<close>, whose \<^verbatim>\<open>if device_id:\<close> drops the
  filter for the empty string: for the registered device \<^verbatim>\<open>""\<close>, which has no meter at
  all, it returns the estimate 1.67 computed from the battery meter of dev-001, where the
  claim has it return no value.
\<close>

theorem estimate_runtime_empty_id:
  "get_device (run empty_id_ops) '''' =
     Inr \<lparr>d_id = '''', d_name = ''Hub'', d_shutdown_threshold = 3, d_target_wh = None\<rparr>
   \<and> device_meters (run empty_id_ops) '''' = []
   \<and> estimate_runtime (run empty_id_ops) '''' = Some (167 / 100)"
  by (simp add: empty_id_db get_device_def device_meters_def estimate_runtime_def
        list_meters_def wattage_def py_round_def Let_def)

text \<open>
  Claim C6, as the code has it, with a storage failure possible in every block. A
  \<^verbatim>\<open>db_conn\<close> block is atomic: it raises with the store unchanged or returns with all
  the writes of its body. After \<^verbatim>\<open>register_device\<close> and \<^verbatim>\<open>add_meter\<close> the store is
  unchanged or holds the one row of the call (these two read the row back in a further
  block, so they can raise with the row committed). \<^verbatim>\<open>trigger_event\<close> raises with the
  store unchanged or returns with its Event appended. \<^verbatim>\<open>log_power\<close> writes the Reading
  row and the Meter update in one block, both or neither, and the auto-emitted Event in a
  later block: it raises with the store unchanged, or returns with all its writes in the
  store, or, when an Event was due, raises with the Reading row and the Meter update
  committed and no Event. With no failure these are the operations of the sections above.
\<close>

theorem transactions_atomic:
  "((\<exists>err. db_conn_io fault body s = (Inl err, s)) \<or>
    (\<exists>a s'. body s = Inr (a, s') \<and> db_conn_io fault body s = (Inr a, s')))
   \<and> (snd (register_device_io flt s device_id name thr target) = s \<or>
       snd (register_device_io flt s device_id name thr target) =
         s\<lparr>devices := filter (\<lambda>x. d_id x \<noteq> device_id) (devices s) @
            [\<lparr>d_id = device_id, d_name = name, d_shutdown_threshold = thr,
              d_target_wh = target\<rparr>]\<rparr>)
   \<and> (snd (add_meter_io flt s e device_id meter_type capacity_wh nm) = s \<or>
       (\<exists>ty. snd (add_meter_io flt s e device_id meter_type capacity_wh nm) =
          s\<lparr>power_meters := power_meters s @
               [\<lparr>m_id = env_uuid e, m_device_id = device_id, m_type = ty,
                 m_voltage = 0, m_current_draw = 0, m_capacity_wh = capacity_wh,
                 m_charge_pct = 100, m_name = nm\<rparr>]\<rparr>))
   \<and> ((\<exists>err. trigger_event_io flt s e device_id event_type val nt = (Inl err, s)) \<or>
       (\<exists>ev. trigger_event_io flt s e device_id event_type val nt =
          (Inr ev, s\<lparr>power_events := power_events s @ [ev]\<rparr>)))
   \<and> ((\<exists>err. log_power_io flt s e e2 meter_id voltage current charge_pct = (Inl err, s)) \<or>
       (\<exists>m. get_meter s meter_id = Inr m \<and>
          (log_power_io flt s e e2 meter_id voltage current charge_pct =
             (Inr (reading_row e meter_id voltage current (clamp_pct m charge_pct)),
              (logged s e meter_id voltage current (clamp_pct m charge_pct))
                \<lparr>power_events := power_events s @ auto_events e2 m (clamp_pct m charge_pct)\<rparr>)
           \<or> (\<exists>err. auto_events e2 m (clamp_pct m charge_pct) \<noteq> [] \<and>
                 log_power_io flt s e e2 meter_id voltage current charge_pct =
                   (Inl err, logged s e meter_id voltage current (clamp_pct m charge_pct))))))
   \<and> register_device_io (\<lambda>k. False) s device_id name thr target =
        register_device s device_id name thr target
   \<and> add_meter_io (\<lambda>k. False) s e device_id meter_type capacity_wh nm =
        add_meter s e device_id meter_type capacity_wh nm
   \<and> trigger_event_io (\<lambda>k. False) s e device_id event_type val nt =
        trigger_event s e device_id event_type val nt
   \<and> log_power_io (\<lambda>k. False) s e e2 meter_id voltage current charge_pct =
        log_power s e e2 meter_id voltage current charge_pct"
proof (intro conjI)
  show "(\<exists>err. db_conn_io fault body s = (Inl err, s)) \<or>
    (\<exists>a s'. body s = Inr (a, s') \<and> db_conn_io fault body s = (Inr a, s'))"
    by (rule db_conn_io_cases)
  show "snd (register_device_io flt s device_id name thr target) = s \<or>
       snd (register_device_io flt s device_id name thr target) =
         s\<lparr>devices := filter (\<lambda>x. d_id x \<noteq> device_id) (devices s) @
            [\<lparr>d_id = device_id, d_name = name, d_shutdown_threshold = thr,
              d_target_wh = target\<rparr>]\<rparr>"
    by (rule register_device_io_snd)
  show "snd (add_meter_io flt s e device_id meter_type capacity_wh nm) = s \<or>
       (\<exists>ty. snd (add_meter_io flt s e device_id meter_type capacity_wh nm) =
          s\<lparr>power_meters := power_meters s @
               [\<lparr>m_id = env_uuid e, m_device_id = device_id, m_type = ty,
                 m_voltage = 0, m_current_draw = 0, m_capacity_wh = capacity_wh,
                 m_charge_pct = 100, m_name = nm\<rparr>]\<rparr>)"
    by (rule add_meter_io_snd)
  show "(\<exists>err. trigger_event_io flt s e device_id event_type val nt = (Inl err, s)) \<or>
       (\<exists>ev. trigger_event_io flt s e device_id event_type val nt =
          (Inr ev, s\<lparr>power_events := power_events s @ [ev]\<rparr>))"
    using trigger_event_io_shape[of flt s e device_id event_type val nt] by blast
  show "(\<exists>err. log_power_io flt s e e2 meter_id voltage current charge_pct = (Inl err, s)) \<or>
       (\<exists>m. get_meter s meter_id = Inr m \<and>
          (log_power_io flt s e e2 meter_id voltage current charge_pct =
             (Inr (reading_row e meter_id voltage current (clamp_pct m charge_pct)),
              (logged s e meter_id voltage current (clamp_pct m charge_pct))
                \<lparr>power_events := power_events s @ auto_events e2 m (clamp_pct m charge_pct)\<rparr>)
           \<or> (\<exists>err. auto_events e2 m (clamp_pct m charge_pct) \<noteq> [] \<and>
                 log_power_io flt s e e2 meter_id voltage current charge_pct =
                   (Inl err, logged s e meter_id voltage current (clamp_pct m charge_pct)))))"
    by (rule log_power_io_cases)
  show "register_device_io (\<lambda>k. False) s device_id name thr target =
        register_device s device_id name thr target"
    by (rule register_device_io_none)
  show "add_meter_io (\<lambda>k. False) s e device_id meter_type capacity_wh nm =
        add_meter s e device_id meter_type capacity_wh nm"
    by (rule add_meter_io_none)
  show "trigger_event_io (\<lambda>k. False) s e device_id event_type val nt =
        trigger_event s e device_id event_type val nt"
    by (rule trigger_event_io_none)
  show "log_power_io (\<lambda>k. False) s e e2 meter_id voltage current charge_pct =
        log_power s e e2 meter_id voltage current charge_pct"
    by (rule log_power_io_none)
qed

text \<open>
  C6 on the fixtures: a failure in the writing block of \<^verbatim>\<open>trigger_event\<close> and in the
  first writing block of \<^verbatim>\<open>log_power\<close> leaves the store unchanged; with no failure
  \<^verbatim>\<open>log_power\<close> at a charge of 4 returns with Reading, Meter update and Event written.
\<close>

theorem transactions_atomic_witness:
  "trigger_event_io (fail_at 1) (run fixture_ops) \<lparr>env_now = 2, env_uuid = ''e1''\<rparr>
          ''dev-001'' ''restore'' 0 None = (Inl OperationalError, run fixture_ops)
   \<and> log_power_io (fail_at 1) (run fixture_ops) \<lparr>env_now = 2, env_uuid = ''r1''\<rparr>
          \<lparr>env_now = 3, env_uuid = ''e1''\<rparr> ''m1'' 12 2 (Some 4)
       = (Inl OperationalError, run fixture_ops)
   \<and> log_power_io (\<lambda>k. False) (run fixture_ops) \<lparr>env_now = 2, env_uuid = ''r1''\<rparr>
          \<lparr>env_now = 3, env_uuid = ''e1''\<rparr> ''m1'' 12 2 (Some 4)
       = (Inr (reading_row \<lparr>env_now = 2, env_uuid = ''r1''\<rparr> ''m1'' 12 2 4),
          (logged (run fixture_ops) \<lparr>env_now = 2, env_uuid = ''r1''\<rparr> ''m1'' 12 2 4)
            \<lparr>power_events := [\<lparr>e_id = ''e1'', e_device_id = ''dev-001'', e_type = LOW_BATTERY,
                                 e_value = 4, e_timestamp = 3, e_note = None\<rparr>]\<rparr>)"
proof -
  let ?e = "\<lparr>env_now = 2, env_uuid = ''r1''\<rparr>"
  let ?e2 = "\<lparr>env_now = 3, env_uuid = ''e1''\<rparr>"
  note t = transactions_atomic [where s = "run fixture_ops" and e = ?e and ?e2.0 = ?e2
      and meter_id = "''m1''" and voltage = 12 and current = 2 and charge_pct = "Some 4"]
  have 1: "trigger_event_io (fail_at 1) (run fixture_ops) \<lparr>env_now = 2, env_uuid = ''e1''\<rparr>
          ''dev-001'' ''restore'' 0 None = (Inl OperationalError, run fixture_ops)"
  proof -
    have f: "fst (trigger_event_io (fail_at 1) (run fixture_ops) \<lparr>env_now = 2, env_uuid = ''e1''\<rparr>
          ''dev-001'' ''restore'' 0 None) = Inl OperationalError"
      by (simp add: fixture_db trigger_event_io_def get_device_io_def get_device_def
            PowerEventType_of_def db_conn_io_def fail_at_def)
    from transactions_atomic [where s = "run fixture_ops" and flt = "fail_at 1"
        and e = "\<lparr>env_now = 2, env_uuid = ''e1''\<rparr>" and device_id = "''dev-001''"
        and event_type = "''restore''" and val = 0 and nt = None,
        THEN conjunct2, THEN conjunct2, THEN conjunct2, THEN conjunct1] f
    show ?thesis by auto
  qed
  have 2: "log_power_io (fail_at 1) (run fixture_ops) ?e ?e2 ''m1'' 12 2 (Some 4)
       = (Inl OperationalError, run fixture_ops)"
    by (simp add: fixture_db log_power_io_def get_meter_io_def get_meter_def
          db_conn_io_def fail_at_def)
  have 3: "log_power_io (\<lambda>k. False) (run fixture_ops) ?e ?e2 ''m1'' 12 2 (Some 4)
       = (Inr (reading_row ?e ''m1'' 12 2 4),
          (logged (run fixture_ops) ?e ''m1'' 12 2 4)
            \<lparr>power_events := [\<lparr>e_id = ''e1'', e_device_id = ''dev-001'', e_type = LOW_BATTERY,
                                 e_value = 4, e_timestamp = 3, e_note = None\<rparr>]\<rparr>)"
    using t [where flt = "\<lambda>k. False", THEN conjunct2, THEN conjunct2, THEN conjunct2,
        THEN conjunct2, THEN conjunct2, THEN conjunct2, THEN conjunct2, THEN conjunct2]
    unfolding fixture_log_80
    by (simp add: auto_events_def event_row_def fixture_db)
  from 1 2 3 show ?thesis by simp
qed

text \<open>
  The claim as the specification states it fails: on the fixtures, with fresh ids, a
  \<^verbatim>\<open>log_power\<close> call at a charge of 4 whose event insert meets a storage failure raises
  \<^verbatim>\<open>sqlite3.OperationalError\<close> with the Reading row and the Meter update committed and
  no Event written.
\<close>

theorem log_power_not_atomic_counterexample:
  "log_power_io (fail_at 3) (run fixture_ops) \<lparr>env_now = 2, env_uuid = ''r1''\<rparr>
       \<lparr>env_now = 3, env_uuid = ''e1''\<rparr> ''m1'' (16 / 5) (1 / 2) (Some 4) =
     (Inl OperationalError,
      \<lparr>devices = [\<lparr>d_id = ''dev-001'', d_name = ''Edge Node'', d_shutdown_threshold = 3,
                   d_target_wh = None\<rparr>],
       power_meters = [\<lparr>m_id = ''m1'', m_device_id = ''dev-001'', m_type = BATTERY,
                       m_voltage = 16 / 5, m_current_draw = 1 / 2, m_capacity_wh = 50,
                       m_charge_pct = 4, m_name = Some ''Main Battery''\<rparr>],
       power_readings = [\<lparr>r_id = ''r1'', r_meter_id = ''m1'', r_voltage = 16 / 5,
                         r_current_draw = 1 / 2, r_wattage = 8 / 5, r_charge_pct = 4,
                         r_timestamp = 2\<rparr>],
       power_events = []\<rparr>)
   \<and> power_readings (run fixture_ops) = []
   \<and> power_events (run fixture_ops) = []"
  by (simp add: fixture_db log_power_io_def get_meter_io_def get_meter_def db_conn_io_def
        db_conn_def insert_reading_def update_meter_def trigger_event_io_def
        get_device_io_def get_device_def PowerEventType_of_def fail_at_def
        insert_event_def py_round_def Let_def
        CRITICAL_BATTERY_THRESHOLD_def LOW_BATTERY_THRESHOLD_def)

text \<open>
  Claim C7 fails on the code for the device id \<^verbatim>\<open>""\<close>, by the same
  \<^verbatim>\<open>if device_id:\<close> of \<^verbatim>\<open>list_meters\<close> as C5: the result object of the registered
  device \<^verbatim>\<open>""\<close>, which has no meter, totals the wattage and counts the batteries of
  every meter in the store (24 W, one battery), where the claim has the total and the
  counts taken over the device's meters (0 W, no battery).
\<close>

theorem power_budget_check_empty_id:
  "device_meters (run empty_id_ops) '''' = []
   \<and> power_budget_check (run empty_id_ops) [''''] '''' =
       Some (Inr \<lparr>total_wattage = 24, battery_count = 1, solar_count = 0,
                  avg_charge_pct = Some 80, estimated_runtime_hours = Some (167 / 100),
                  states = [NORMAL]\<rparr>)"
  by (simp add: empty_id_db get_device_def device_meters_def estimate_runtime_def
        list_meters_def wattage_def py_round_def Let_def power_budget_check_def
        budget_entry_def state_def CRITICAL_BATTERY_THRESHOLD_def LOW_BATTERY_THRESHOLD_def)

text \<open>
  Claim C8, as the code has it. \<^verbatim>\<open>export_report\<close> fails with NotFound when the device
  is absent. For a device that exists it raises \<^verbatim>\<open>OverflowError\<close> when it lists a meter
  and the window of \<open>days * 24\<close> hours has no start (\<^verbatim>\<open>get_history\<close> raises), and
  produces a report otherwise. In a report it produces, \<^verbatim>\<open>event_count\<close> is the number
  of events recorded for the device capped at 200 (the events \<^verbatim>\<open>get_events\<close> fetches
  with \<^verbatim>\<open>limit=200\<close>), and the events embedded are the 20 most recent, newest first.
\<close>

theorem export_report_events:
  "(device_id \<notin> set (map d_id (devices s)) \<longrightarrow>
      export_report s now device_id days = Inl (DeviceNotFound device_id))
   \<and> (device_id \<in> set (map d_id (devices s)) \<and> list_meters s (Some device_id) \<noteq> []
        \<and> window_start now (days * 24) = Inl err \<longrightarrow>
      export_report s now device_id days = Inl err)
   \<and> (device_id \<in> set (map d_id (devices s))
        \<and> (list_meters s (Some device_id) = [] \<or> window_start now (days * 24) = Inr since) \<longrightarrow>
      (\<exists>rep. export_report s now device_id days = Inr rep))
   \<and> (export_report s now device_id days = Inr rep \<longrightarrow>
        rp_event_count rep = min 200 (length (device_events s device_id))
        \<and> rp_events rep = take 20 (rev (sort_key e_timestamp (device_events s device_id)))
        \<and> length (rp_events rep) \<le> 20)"
proof (intro conjI impI)
  assume "device_id \<notin> set (map d_id (devices s))"
  then show "export_report s now device_id days = Inl (DeviceNotFound device_id)"
    by (rule export_report_Inl)
next
  assume "device_id \<in> set (map d_id (devices s)) \<and> list_meters s (Some device_id) \<noteq> []
        \<and> window_start now (days * 24) = Inl err"
  then show "export_report s now device_id days = Inl err"
    by (intro export_report_overflow) blast+
next
  assume a: "device_id \<in> set (map d_id (devices s))
        \<and> (list_meters s (Some device_id) = [] \<or> window_start now (days * 24) = Inr since)"
  then have "device_id \<in> set (map d_id (devices s))"
    and "list_meters s (Some device_id) = [] \<or> window_start now (days * 24) = Inr since"
    by blast+
  from export_report_Inr[OF this]
  show "\<exists>rep. export_report s now device_id days = Inr rep" by blast
next
  assume a: "export_report s now device_id days = Inr rep"
  from export_report_InrD[OF a]
  show "rp_event_count rep = min 200 (length (device_events s device_id))"
    and r: "rp_events rep = take 20 (rev (sort_key e_timestamp (device_events s device_id)))"
    by blast+
  show "length (rp_events rep) \<le> 20" unfolding r by simp
qed

text \<open>
  C8 on a device with three events and no meter: an unknown device is NotFound, and the
  report of the device counts three events and embeds them newest first. On a device with
  a meter, a period of 1000000 days raises \<^verbatim>\<open>OverflowError\<close>.
\<close>

theorem export_report_events_witness:
  "export_report (run (burst_ops 3)) 1000 ''dev-002'' 7 = Inl (DeviceNotFound ''dev-002'')
   \<and> export_report (run empty_id_ops) 1000 ''dev-001'' 1000000 = Inl OverflowError
   \<and> (\<exists>rep. export_report (run (burst_ops 3)) 1000 ''dev-001'' 7 = Inr rep
         \<and> rp_event_count rep = 3
         \<and> rp_events rep = [burst_event 2, burst_event 1, burst_event 0])"
proof -
  have up: "[0..<3] = [0, 1, 2]" by (simp add: upt_rec)
  have srt: "rev (sort_key e_timestamp (map burst_event [0..<3]))
      = [burst_event 2, burst_event 1, burst_event 0]"
    unfolding up by (simp add: burst_event_def)
  have dev: "d_id ` set (devices (run (burst_ops 3))) = {''dev-001''}"
    by (simp add: run_burst)
  have nom: "list_meters (run (burst_ops 3)) (Some ''dev-001'') = []"
    by (simp add: run_burst list_meters_def)
  have dev2: "''dev-001'' \<in> d_id ` set (devices (run empty_id_ops))"
    by (simp add: empty_id_db)
  have m2: "list_meters (run empty_id_ops) (Some ''dev-001'') \<noteq> []"
    by (simp add: empty_id_db list_meters_def)
  have w2: "window_start 1000 (1000000 * 24) = Inl OverflowError"
    by (simp add: window_start_eq hours_us_def datetime_min_def)
  note t1 = export_report_events [where s = "run (burst_ops 3)" and device_id = "''dev-002''"
      and now = 1000 and days = 7, THEN conjunct1]
  note t2 = export_report_events [where s = "run empty_id_ops" and device_id = "''dev-001''"
      and now = 1000 and days = 1000000 and err = OverflowError,
      THEN conjunct2, THEN conjunct1]
  note t3 = export_report_events [where s = "run (burst_ops 3)" and device_id = "''dev-001''"
      and now = 1000 and days = 7, THEN conjunct2, THEN conjunct2, THEN conjunct1]
  note t4 = export_report_events [where s = "run (burst_ops 3)" and device_id = "''dev-001''"
      and now = 1000 and days = 7, THEN conjunct2, THEN conjunct2, THEN conjunct2]
  from t1 have a: "export_report (run (burst_ops 3)) 1000 ''dev-002'' 7 = Inl (DeviceNotFound ''dev-002'')"
    by (simp add: dev)
  from t2 dev2 m2 w2
  have b: "export_report (run empty_id_ops) 1000 ''dev-001'' 1000000 = Inl OverflowError"
    by simp
  from t3 nom obtain rep where r: "export_report (run (burst_ops 3)) 1000 ''dev-001'' 7 = Inr rep"
    by (auto simp: dev)
  from t4[of rep] r have "rp_event_count rep = 3"
    "rp_events rep = [burst_event 2, burst_event 1, burst_event 0]"
    by (simp_all add: device_events_burst srt)
  with a b r show ?thesis by blast
qed

text \<open>
  The claim as the specification states it fails: for a device with 201 events
  \<^verbatim>\<open>event_count\<close> is 200, not the total 201.
\<close>

theorem export_report_event_count_counterexample:
  "map_sum id rp_event_count (export_report (run (burst_ops 201)) 1000 ''dev-001'' 7) = Inr 200
   \<and> length (device_events (run (burst_ops 201)) ''dev-001'') = 201"
proof -
  have "''dev-001'' \<in> set (map d_id (devices (run (burst_ops 201))))"
    by (simp add: run_burst)
  moreover have "list_meters (run (burst_ops 201)) (Some ''dev-001'') = []
      \<or> window_start 1000 (7 * 24) = Inr 0"
    by (simp add: run_burst list_meters_def)
  ultimately show ?thesis
    using export_report_Inr[of "''dev-001''" "run (burst_ops 201)" 1000 7 0]
    by (auto simp: device_events_burst)
qed

text \<open>
  Claim C9, as the code has it. \<^verbatim>\<open>get_history\<close> returns exactly when the start of its
  window, \<^verbatim>\<open>now - timedelta(hours=hours)\<close>, is a \<^verbatim>\<open>datetime\<close> (the hours make a
  \<^verbatim>\<open>timedelta\<close> and the start lies in the years 1 to 9999), and raises
  \<^verbatim>\<open>OverflowError\<close> otherwise; when it returns, the rows are in ascending timestamp
  order and hold every Reading of the meter in the store that is not older than the start.
  \<^verbatim>\<open>get_events\<close> returns exactly when the limit fits a signed 64-bit integer, and raises
  \<^verbatim>\<open>OverflowError\<close> otherwise; when it returns, the rows are in descending timestamp
  order and, for a limit that is negative or at least the number of the device's events,
  hold every Event of the device in the store. The Reading a successful \<^verbatim>\<open>log_power\<close>
  returns and the Event a successful \<^verbatim>\<open>trigger_event\<close> returns are in the store after
  the call and after any further operations.
\<close>

theorem history_events_roundtrip:
  "window_start now hours =
     (if - 999999999 \<le> hours div 24 \<and> hours div 24 \<le> 999999999
         \<and> datetime_min \<le> now - hours_us hours \<and> now - hours_us hours \<le> datetime_max
      then Inr (now - hours_us hours) else Inl OverflowError)
   \<and> (window_start now hours = Inl err \<longrightarrow> get_history s now meter_id hours = Inl err)
   \<and> (window_start now hours = Inr since \<longrightarrow>
        (\<exists>rows. get_history s now meter_id hours = Inr rows
           \<and> sorted (map r_timestamp rows)
           \<and> (r \<in> set (power_readings s) \<and> r_meter_id r = meter_id \<and> since \<le> r_timestamp r
                \<longrightarrow> r \<in> set rows)))
   \<and> (limit < - (2 ^ 63) \<or> 2 ^ 63 \<le> limit \<longrightarrow> get_events s device_id limit = Inl OverflowError)
   \<and> (- (2 ^ 63) \<le> limit \<and> limit < 2 ^ 63 \<longrightarrow>
        (\<exists>evs. get_events s device_id limit = Inr evs
           \<and> sorted (rev (map e_timestamp evs))
           \<and> (ev \<in> set (power_events s) \<and> e_device_id ev = device_id
                \<and> (limit < 0 \<or> int (length (device_events s device_id)) \<le> limit)
                \<longrightarrow> ev \<in> set evs)))
   \<and> (log_power s0 e e2 meter_id voltage current charge_pct = (Inr r0, s1)
      \<longrightarrow> r0 \<in> set (power_readings (foldl step s1 ops))
          \<and> r_meter_id r0 = meter_id \<and> r_timestamp r0 = env_now e)
   \<and> (trigger_event s0 e device_id event_type val nt = (Inr ev0, s2)
      \<longrightarrow> ev0 \<in> set (power_events (foldl step s2 ops))
          \<and> e_device_id ev0 = device_id \<and> e_timestamp ev0 = env_now e)"
proof (intro conjI impI)
  show "window_start now hours =
     (if - 999999999 \<le> hours div 24 \<and> hours div 24 \<le> 999999999
         \<and> datetime_min \<le> now - hours_us hours \<and> now - hours_us hours \<le> datetime_max
      then Inr (now - hours_us hours) else Inl OverflowError)"
    by (rule window_start_eq)
next
  assume "window_start now hours = Inl err"
  then show "get_history s now meter_id hours = Inl err" by (rule get_history_Inl)
next
  assume w: "window_start now hours = Inr since"
  show "\<exists>rows. get_history s now meter_id hours = Inr rows
           \<and> sorted (map r_timestamp rows)
           \<and> (r \<in> set (power_readings s) \<and> r_meter_id r = meter_id \<and> since \<le> r_timestamp r
                \<longrightarrow> r \<in> set rows)"
    unfolding get_history_Inr[OF w]
    by (simp add: select_readings_set select_readings_sorted)
next
  assume "limit < - (2 ^ 63) \<or> 2 ^ 63 \<le> limit"
  then show "get_events s device_id limit = Inl OverflowError"
    by (auto simp: get_events_eq)
next
  assume l: "- (2 ^ 63) \<le> limit \<and> limit < 2 ^ 63"
  then obtain evs where g: "get_events s device_id limit = Inr evs"
    by (auto simp: get_events_eq)
  have "ev \<in> set evs"
    if "ev \<in> set (power_events s) \<and> e_device_id ev = device_id
          \<and> (limit < 0 \<or> int (length (device_events s device_id)) \<le> limit)"
  proof -
    from that get_events_all[OF g]
    have "evs = rev (sort_key e_timestamp (device_events s device_id))" by blast
    with that show ?thesis by (simp add: device_events_def)
  qed
  with g get_events_sorted[OF g]
  show "\<exists>evs. get_events s device_id limit = Inr evs
           \<and> sorted (rev (map e_timestamp evs))
           \<and> (ev \<in> set (power_events s) \<and> e_device_id ev = device_id
                \<and> (limit < 0 \<or> int (length (device_events s device_id)) \<le> limit)
                \<longrightarrow> ev \<in> set evs)"
    by blast
next
  assume a: "log_power s0 e e2 meter_id voltage current charge_pct = (Inr r0, s1)"
  from log_power_InrD[OF a] obtain m where
    r: "r0 = reading_row e meter_id voltage current (clamp_pct m charge_pct)"
    and s: "s1 = (logged s0 e meter_id voltage current (clamp_pct m charge_pct))
                    \<lparr>power_events := power_events s0 @ auto_events e2 m (clamp_pct m charge_pct)\<rparr>"
    by blast
  have "r0 \<in> set (power_readings s1)" by (simp add: r s)
  with foldl_step_keeps_rows[of s1 ops]
  show "r0 \<in> set (power_readings (foldl step s1 ops))" by blast
  show "r_meter_id r0 = meter_id" "r_timestamp r0 = env_now e"
    by (simp_all add: r reading_row_def)
next
  assume a: "trigger_event s0 e device_id event_type val nt = (Inr ev0, s2)"
  from trigger_event_shape[of s0 e device_id event_type val nt] a
  obtain ty where ev0: "ev0 = \<lparr>e_id = env_uuid e, e_device_id = device_id, e_type = ty,
        e_value = val, e_timestamp = env_now e, e_note = nt\<rparr>"
    and s2: "s2 = s0\<lparr>power_events := power_events s0 @ [ev0]\<rparr>"
    by auto
  have "ev0 \<in> set (power_events s2)" by (simp add: s2)
  with foldl_step_keeps_rows[of s2 ops]
  show "ev0 \<in> set (power_events (foldl step s2 ops))" by blast
  show "e_device_id ev0 = device_id" "e_timestamp ev0 = env_now e"
    by (simp_all add: ev0)
qed

text \<open>
  C9 on the fixtures after a reading at a charge of 10: the reading is in the one-hour
  history, and the discharge event it raised is among the device's events.
\<close>

theorem history_events_roundtrip_witness:
  "\<exists>rows evs. get_history fixture_logged 3600000000 ''m1'' 1 = Inr rows
      \<and> \<lparr>r_id = ''r1'', r_meter_id = ''m1'', r_voltage = 12, r_current_draw = 2,
          r_wattage = 24, r_charge_pct = 10, r_timestamp = 2\<rparr> \<in> set rows
      \<and> get_events fixture_logged ''dev-001'' 50 = Inr evs
      \<and> \<lparr>e_id = ''e1'', e_device_id = ''dev-001'', e_type = DISCHARGE, e_value = 10,
          e_timestamp = 3, e_note = None\<rparr> \<in> set evs"
proof -
  let ?r = "\<lparr>r_id = ''r1'', r_meter_id = ''m1'', r_voltage = 12, r_current_draw = 2,
          r_wattage = 24, r_charge_pct = 10, r_timestamp = 2\<rparr>"
  let ?ev = "\<lparr>e_id = ''e1'', e_device_id = ''dev-001'', e_type = DISCHARGE, e_value = 10,
          e_timestamp = 3, e_note = None\<rparr>"
  note t = history_events_roundtrip [where s = fixture_logged and now = 3600000000 and hours = 1
      and since = 0 and meter_id = "''m1''" and r = ?r and ev = ?ev
      and device_id = "''dev-001''" and limit = 50]
  note c1 = t [THEN conjunct1]
  note c3 = t [THEN conjunct2, THEN conjunct2, THEN conjunct1]
  note c5 = t [THEN conjunct2, THEN conjunct2, THEN conjunct2, THEN conjunct2, THEN conjunct1]
  have w: "window_start 3600000000 1 = Inr 0"
    using c1 by (simp add: hours_us_def datetime_min_def datetime_max_def)
  from c3 w obtain rows where "get_history fixture_logged 3600000000 ''m1'' 1 = Inr rows"
    "?r \<in> set rows"
    by (auto simp: fixture_logged_rows)
  moreover from c5 obtain evs where "get_events fixture_logged ''dev-001'' 50 = Inr evs"
    "?ev \<in> set evs"
    by (auto simp: fixture_logged_rows device_events_def)
  ultimately show ?thesis by blast
qed

text \<open>
  The claim as the specification states it fails: the window of 100000000 hours covers
  the reading of the fixtures, and \<^verbatim>\<open>get_history\<close> raises \<^verbatim>\<open>OverflowError\<close> instead
  of returning it, the start of the window lying before the year 1; the limit
  \<open>2\<^sup>6\<^sup>3\<close> exceeds the number of events, and \<^verbatim>\<open>get_events\<close> raises
  \<^verbatim>\<open>OverflowError\<close>.
\<close>

theorem history_window_counterexample:
  "power_readings fixture_logged =
     [\<lparr>r_id = ''r1'', r_meter_id = ''m1'', r_voltage = 12, r_current_draw = 2,
       r_wattage = 24, r_charge_pct = 10, r_timestamp = 2\<rparr>]
   \<and> 3600000000 - hours_us 100000000 \<le> 2
   \<and> get_history fixture_logged 3600000000 ''m1'' 100000000 = Inl OverflowError
   \<and> power_events fixture_logged =
     [\<lparr>e_id = ''e1'', e_device_id = ''dev-001'', e_type = DISCHARGE, e_value = 10,
       e_timestamp = 3, e_note = None\<rparr>]
   \<and> get_events fixture_logged ''dev-001'' (2 ^ 63) = Inl OverflowError"
  by (simp add: fixture_logged_rows get_history_def window_start_eq hours_us_def
        datetime_min_def datetime_max_def get_events_eq)

text \<open>
  Claim C10. For an existing device, a recognised meter type and a fresh meter id,
  \<^verbatim>\<open>add_meter\<close> returns a meter with voltage 0, current draw 0 and charge 100. Its
  wattage is 0 and its state is CHARGING, and this is the meter \<^verbatim>\<open>get_meter\<close> returns
  (and 0 the value of \<^verbatim>\<open>calculate_wattage\<close>) after any operations that contain no
  \<^verbatim>\<open>log_power\<close> call on it.
\<close>

theorem add_meter_defaults:
  assumes "get_device s device_id = Inr d"
    and "MeterType_of meter_type = Some ty"
    and "env_uuid e \<notin> set (map m_id (power_meters s))"
  shows "\<exists>m s'. add_meter s e device_id meter_type capacity_wh name = (Inr m, s')
           \<and> m_id m = env_uuid e \<and> m_device_id m = device_id \<and> m_type m = ty
           \<and> m_voltage m = 0 \<and> m_current_draw m = 0 \<and> m_charge_pct m = 100
           \<and> wattage m = 0 \<and> state m = CHARGING
           \<and> (\<forall>ops. \<not> list_ex (logs_meter (m_id m)) ops \<longrightarrow>
                 get_meter (foldl step s' ops) (m_id m) = Inr m
                 \<and> calculate_wattage (foldl step s' ops) (m_id m) = Inr 0)"
proof -
  define m where "m = \<lparr>m_id = env_uuid e, m_device_id = device_id, m_type = ty,
                 m_voltage = 0, m_current_draw = 0, m_capacity_wh = capacity_wh,
                 m_charge_pct = 100, m_name = name\<rparr>"
  define s' where "s' = s\<lparr>power_meters := power_meters s @ [m]\<rparr>"
  from get_device_InrD[OF assms(1)] have dev: "device_id \<in> set (map d_id (devices s))" ..
  have res: "add_meter s e device_id meter_type capacity_wh name = (Inr m, s')"
    unfolding m_def s'_def by (rule add_meter_ok[OF dev assms(2,3)])
  have nf: "find (\<lambda>x. m_id x = env_uuid e) (power_meters s) = None"
    using assms(3) by (force simp: find_None_iff)
  have gm: "get_meter s' (m_id m) = Inr m"
    using nf by (simp add: get_meter_def s'_def m_def find_snoc)
  have w: "wattage m = 0" by (simp add: wattage_def m_def py_round_zero)
  have st: "state m = CHARGING"
    by (simp add: state_def m_def CRITICAL_BATTERY_THRESHOLD_def LOW_BATTERY_THRESHOLD_def)
  have later: "\<forall>ops. \<not> list_ex (logs_meter (m_id m)) ops \<longrightarrow>
                 get_meter (foldl step s' ops) (m_id m) = Inr m
                 \<and> calculate_wattage (foldl step s' ops) (m_id m) = Inr 0"
    using foldl_step_keeps_meter[OF gm] w by (simp add: calculate_wattage_def)
  from res w st later show ?thesis
    by (intro exI[of _ m] exI[of _ s']) (simp add: m_def)
qed

text \<open>
  C10 on a battery meter added to the registered device dev-001, read back after a
  \<^verbatim>\<open>trigger_event\<close> call.
\<close>

theorem add_meter_defaults_witness:
  "\<exists>m s'. add_meter (run [RegisterDevice ''dev-001'' ''Edge Node'' 3 None])
              \<lparr>env_now = 1, env_uuid = ''m1''\<rparr> ''dev-001'' ''battery'' 50 (Some ''Main Battery'')
            = (Inr m, s')
         \<and> m_id m = ''m1'' \<and> m_type m = BATTERY
         \<and> m_voltage m = 0 \<and> m_current_draw m = 0 \<and> m_charge_pct m = 100
         \<and> wattage m = 0 \<and> state m = CHARGING
         \<and> get_meter
              (foldl step s'
                 [TriggerEvent \<lparr>env_now = 2, env_uuid = ''e1''\<rparr> ''dev-001'' ''charge_start'' 85 None])
              ''m1'' = Inr m"
proof -
  let ?s = "run [RegisterDevice ''dev-001'' ''Edge Node'' 3 None]"
  let ?ops = "[TriggerEvent \<lparr>env_now = 2, env_uuid = ''e1''\<rparr> ''dev-001'' ''charge_start'' 85 None]"
  have h1: "get_device ?s ''dev-001'' =
      Inr \<lparr>d_id = ''dev-001'', d_name = ''Edge Node'', d_shutdown_threshold = 3, d_target_wh = None\<rparr>"
    by (simp add: run_def init_db_def register_device_snd get_device_def)
  have h2: "MeterType_of ''battery'' = Some BATTERY"
    by (simp add: MeterType_of_def)
  have h3: "env_uuid \<lparr>env_now = 1, env_uuid = ''m1''\<rparr> \<notin> set (map m_id (power_meters ?s))"
    by (simp add: run_def init_db_def register_device_snd)
  from add_meter_defaults [OF h1 h2 h3, of 50 "Some ''Main Battery''"]
  obtain m s' where r: "add_meter ?s \<lparr>env_now = 1, env_uuid = ''m1''\<rparr> ''dev-001'' ''battery'' 50
        (Some ''Main Battery'') = (Inr m, s')"
    and f: "m_id m = ''m1''" "m_type m = BATTERY" "m_voltage m = 0" "m_current_draw m = 0"
      "m_charge_pct m = 100" "wattage m = 0" "state m = CHARGING"
    and l: "\<forall>ops. \<not> list_ex (logs_meter (m_id m)) ops \<longrightarrow>
                 get_meter (foldl step s' ops) (m_id m) = Inr m
                 \<and> calculate_wattage (foldl step s' ops) (m_id m) = Inr 0"
    by auto
  have "\<not> list_ex (logs_meter (m_id m)) ?ops" by simp
  with l have "get_meter (foldl step s' ?ops) (m_id m) = Inr m" by blast
  with r f show ?thesis by (intro exI[of _ m] exI[of _ s']) simp
qed

text \<open>
  For a device id that is not the empty string, what C5 states holds:
  \<^verbatim>\<open>estimate_runtime\<close> returns no value when the device has no battery meter with a
  positive current draw, and when the first such meter, in insertion order, has wattage
  at most 0; otherwise it returns \<open>(capacity_wh * charge_pct / 100) / wattage\<close> of that
  meter rounded to 2 decimals.
\<close>

theorem estimate_runtime_first_battery:
  assumes "device_id \<noteq> []"
  shows "estimate_runtime s device_id =
     (case filter (\<lambda>m. m_type m = BATTERY \<and> 0 < m_current_draw m) (device_meters s device_id) of
        [] \<Rightarrow> None
      | bm # _ \<Rightarrow>
          if wattage bm \<le> 0 then None
          else Some (py_round ((m_capacity_wh bm * m_charge_pct bm / 100) / wattage bm) 2))"
  using assms
  by (simp add: estimate_runtime_def list_meters_nonempty Let_def split: list.splits)

text \<open>
  The scenario of the specification: 50 Wh at 80 percent and 24 W give 1.67 hours;
  a meter that draws no current gives no estimate.
\<close>

theorem estimate_runtime_first_battery_witness:
  "estimate_runtime (run empty_id_ops) ''dev-001'' = Some (167 / 100)
   \<and> estimate_runtime (run fixture_ops) ''dev-001'' = None"
proof -
  have 1: "''dev-001'' \<noteq> []" by simp
  show ?thesis
    using estimate_runtime_first_battery [OF 1, of "run empty_id_ops"]
      estimate_runtime_first_battery [OF 1, of "run fixture_ops"]
    by (simp add: empty_id_db fixture_db device_meters_def wattage_def py_round_def)
qed

text \<open>
  For device ids that are not the empty string, what C7 states holds:
  \<^verbatim>\<open>power_budget_check\<close> returns a mapping whose keys are exactly the ids given. The
  entry of an id that is not a registered device is the error descriptor of NotFound; the
  entry of a registered device with a non-empty id is the result object over the device's
  meters: the sum of their wattages rounded to 4 decimals, the counts of battery and solar
  meters, the average battery charge rounded to 2 decimals or no value, the runtime
  estimate and the meters' states.
\<close>

theorem power_budget_check_entries:
  "dom (power_budget_check s device_ids) = set device_ids
   \<and> (d \<in> set device_ids \<and> d \<notin> set (map d_id (devices s)) \<longrightarrow>
        power_budget_check s device_ids d = Some (Inl (DeviceNotFound d)))
   \<and> (d \<in> set device_ids \<and> d \<in> set (map d_id (devices s)) \<and> d \<noteq> [] \<longrightarrow>
        power_budget_check s device_ids d =
          Some (Inr \<lparr>total_wattage = py_round (sum_list (map wattage (device_meters s d))) 4,
                     battery_count = length (filter (\<lambda>m. m_type m = BATTERY) (device_meters s d)),
                     solar_count = length (filter (\<lambda>m. m_type m = SOLAR) (device_meters s d)),
                     avg_charge_pct =
                       (if filter (\<lambda>m. m_type m = BATTERY) (device_meters s d) = [] then None
                        else Some (py_round
                          (sum_list (map m_charge_pct
                              (filter (\<lambda>m. m_type m = BATTERY) (device_meters s d)))
                           / of_nat (length (filter (\<lambda>m. m_type m = BATTERY) (device_meters s d))))
                          2)),
                     estimated_runtime_hours = estimate_runtime s d,
                     states = map state (device_meters s d)\<rparr>))"
proof (intro conjI impI)
  show "dom (power_budget_check s device_ids) = set device_ids"
    by (auto simp: power_budget_check_lookup dom_def)
next
  assume "d \<in> set device_ids \<and> d \<notin> set (map d_id (devices s))"
  then show "power_budget_check s device_ids d = Some (Inl (DeviceNotFound d))"
    by (simp add: power_budget_check_lookup budget_entry_def get_device_Inl)
next
  assume a: "d \<in> set device_ids \<and> d \<in> set (map d_id (devices s)) \<and> d \<noteq> []"
  then obtain dev where "get_device s d = Inr dev" using get_device_Inr by blast
  with a show "power_budget_check s device_ids d =
          Some (Inr \<lparr>total_wattage = py_round (sum_list (map wattage (device_meters s d))) 4,
                     battery_count = length (filter (\<lambda>m. m_type m = BATTERY) (device_meters s d)),
                     solar_count = length (filter (\<lambda>m. m_type m = SOLAR) (device_meters s d)),
                     avg_charge_pct =
                       (if filter (\<lambda>m. m_type m = BATTERY) (device_meters s d) = [] then None
                        else Some (py_round
                          (sum_list (map m_charge_pct
                              (filter (\<lambda>m. m_type m = BATTERY) (device_meters s d)))
                           / of_nat (length (filter (\<lambda>m. m_type m = BATTERY) (device_meters s d))))
                          2)),
                     estimated_runtime_hours = estimate_runtime s d,
                     states = map state (device_meters s d)\<rparr>)"
    by (simp add: power_budget_check_lookup budget_entry_def list_meters_nonempty Let_def)
qed

text \<open>
  One valid and one unknown id: the batch returns the result object of dev-001 and
  an error entry for the unknown id.
\<close>

theorem power_budget_check_entries_witness:
  "power_budget_check (run empty_id_ops) [''dev-001'', ''nonexistent''] ''nonexistent''
     = Some (Inl (DeviceNotFound ''nonexistent''))
   \<and> power_budget_check (run empty_id_ops) [''dev-001'', ''nonexistent''] ''dev-001''
     = Some (Inr \<lparr>total_wattage = 24, battery_count = 1, solar_count = 0,
                  avg_charge_pct = Some 80, estimated_runtime_hours = Some (167 / 100),
                  states = [NORMAL]\<rparr>)"
proof -
  have dev: "d_id ` set (devices (run empty_id_ops)) = {'''', ''dev-001''}"
    by (auto simp: empty_id_db)
  have dm: "device_meters (run empty_id_ops) ''dev-001'' = power_meters (run empty_id_ops)"
    by (simp add: device_meters_def empty_id_db)
  have rt: "estimate_runtime (run empty_id_ops) ''dev-001'' = Some (167 / 100)"
    by (simp add: empty_id_db estimate_runtime_def list_meters_def wattage_def py_round_def Let_def)
  from power_budget_check_entries [of "run empty_id_ops" "[''dev-001'', ''nonexistent'']" "''nonexistent''"]
  have 1: "power_budget_check (run empty_id_ops) [''dev-001'', ''nonexistent''] ''nonexistent''
     = Some (Inl (DeviceNotFound ''nonexistent''))"
    by (simp add: dev)
  from power_budget_check_entries [of "run empty_id_ops" "[''dev-001'', ''nonexistent'']" "''dev-001''"]
  have 2: "power_budget_check (run empty_id_ops) [''dev-001'', ''nonexistent''] ''dev-001''
     = Some (Inr \<lparr>total_wattage = 24, battery_count = 1, solar_count = 0,
                  avg_charge_pct = Some 80, estimated_runtime_hours = Some (167 / 100),
                  states = [NORMAL]\<rparr>)"
    by (simp add: dev dm rt)
       (simp add: empty_id_db wattage_def py_round_def state_def
          CRITICAL_BATTERY_THRESHOLD_def LOW_BATTERY_THRESHOLD_def)
  from 1 2 show ?thesis by simp
qed

end
